theory Spec2Isabelle
  imports Complex_Main
begin

section \<open>Rate limiting state of the sanitize route (src/app/api/sanitize/route.ts)\<close>

text \<open>
  The module-level variable \<open>rateLimitState\<close> is passed explicitly.  JavaScript numbers
  are modelled exactly: timestamps (\<open>Date.now()\<close>, whole milliseconds) and the error
  counter as integers, the backoff (a product with the fractional jitter) as a rational.
  The two ambient inputs of the functions, the clock \<open>Date.now()\<close> and the random
  draw \<open>Math.random()\<close>, are parameters.
\<close>

record RateLimitState =
  lastRequestTime :: int
  consecutiveErrors :: int
  backoffMs :: rat
  inCooldown :: bool

definition rateLimitState :: RateLimitState where
  "rateLimitState =
     \<lparr>lastRequestTime = 0, consecutiveErrors = 0, backoffMs = 1000, inCooldown = False\<rparr>"

text \<open>\<open>isRateLimited()\<close>: the returned flag and the state it leaves behind.\<close>

definition isRateLimited :: "int \<Rightarrow> RateLimitState \<Rightarrow> bool \<times> RateLimitState" where
  "isRateLimited now s =
     (if inCooldown s then
        (if of_int (now - lastRequestTime s) > backoffMs s
         then (False, s\<lparr>inCooldown := False\<rparr>)
         else (True, s))
      else (False, s))"

text \<open>
  \<open>handleRateLimit()\<close> (the spec's recordFailure).  \<open>random\<close> is the value of
  \<open>Math.random()\<close>, so the jitter is \<open>0.5 + random\<close>.
\<close>

definition handleRateLimit :: "rat \<Rightarrow> int \<Rightarrow> RateLimitState \<Rightarrow> RateLimitState" where
  "handleRateLimit random now s =
     (let jitter = 1 / 2 + random in
      s\<lparr>consecutiveErrors := consecutiveErrors s + 1,
        backoffMs := min 30000 (backoffMs s * 2 * jitter),
        lastRequestTime := now,
        inCooldown := True\<rparr>)"

text \<open>\<open>handleSuccessfulRequest()\<close> (the spec's recordSuccess).\<close>

definition handleSuccessfulRequest :: "int \<Rightarrow> RateLimitState \<Rightarrow> RateLimitState" where
  "handleSuccessfulRequest now s =
     (let s' = (if consecutiveErrors s > 0
                then s\<lparr>consecutiveErrors := 0, backoffMs := 1000\<rparr>
                else s)
      in s'\<lparr>lastRequestTime := now\<rparr>)"

text \<open>
  Histories of the controller: any sequence of the three calls, each with the clock value it
  reads and, for a failure, the random draw.
\<close>

datatype rl_call =
    IsRateLimited int
  | RecordFailure rat int
  | RecordSuccess int

fun rl_step :: "RateLimitState \<Rightarrow> rl_call \<Rightarrow> RateLimitState" where
  "rl_step s (IsRateLimited now) = snd (isRateLimited now s)"
| "rl_step s (RecordFailure random now) = handleRateLimit random now s"
| "rl_step s (RecordSuccess now) = handleSuccessfulRequest now s"

definition rl_run :: "rl_call list \<Rightarrow> RateLimitState" where
  "rl_run calls = foldl rl_step rateLimitState calls"

text \<open>\<open>Math.random()\<close> returns a value in \<open>[0, 1)\<close>, so the jitter lies in \<open>[0.5, 1.5)\<close>.\<close>

fun random_ok :: "rl_call \<Rightarrow> bool" where
  "random_ok (RecordFailure random now) = (0 \<le> random \<and> random < 1)"
| "random_ok (IsRateLimited now) = True"
| "random_ok (RecordSuccess now) = True"

section \<open>JavaScript strings and regular expressions\<close>

text \<open>
  A string is a list of characters; the characters of the model are the code units
  \<open>U+0000\<close> to \<open>U+00FF\<close>.  In that range JavaScript's white space (\<open>\s\<close> and
  \<open>trim\<close>) is TAB, LF, VT, FF, CR, SPACE and NBSP; \<open>\d\<close> and \<open>\w\<close> are ASCII only.
\<close>

definition is_space :: "char \<Rightarrow> bool" where
  "is_space c = (let n = (of_char c :: nat) in (9 \<le> n \<and> n \<le> 13) \<or> n = 32 \<or> n = 160)"

definition is_digit :: "char \<Rightarrow> bool" where
  "is_digit c = (let n = (of_char c :: nat) in 48 \<le> n \<and> n \<le> 57)"

definition is_alpha :: "char \<Rightarrow> bool" where
  "is_alpha c = (let n = (of_char c :: nat) in (97 \<le> n \<and> n \<le> 122) \<or> (65 \<le> n \<and> n \<le> 90))"

definition is_word :: "char \<Rightarrow> bool" where
  "is_word c = (is_alpha c \<or> is_digit c \<or> c = CHR ''_'')"

text \<open>
  Case folding of the \<open>i\<close> flag.  ECMAScript compares the upper-case images of the two
  characters, and never lets a non-ASCII character fold onto an ASCII one; every literal
  of the patterns below is ASCII, so folding the ASCII letters is all that can matter.
\<close>

definition canonicalize :: "char \<Rightarrow> char" where
  "canonicalize c = (let n = (of_char c :: nat) in
     if 97 \<le> n \<and> n \<le> 122 then char_of (n - 32) else c)"

text \<open>
  \<open>toLowerCase\<close> on the modelled range: ASCII and Latin-1 capitals move down by 32.
  The range is a real limit of the model: beyond it \<open>toLowerCase\<close> can turn a character
  that is no word character into an ASCII letter (\<open>U+212A\<close>, the Kelvin sign, becomes
  \<open>k\<close>; \<open>U+0130\<close> becomes \<open>i\<close> followed by \<open>U+0307\<close>), which no character of the
  range does.  Statements about all texts below are statements about all texts over
  \<open>U+0000\<close> to \<open>U+00FF\<close>.
\<close>

definition toLowerChar :: "char \<Rightarrow> char" where
  "toLowerChar c = (let n = (of_char c :: nat) in
     if (65 \<le> n \<and> n \<le> 90) \<or> (192 \<le> n \<and> n \<le> 222 \<and> n \<noteq> 215) then char_of (n + 32) else c)"

definition toLowerCase :: "string \<Rightarrow> string" where
  "toLowerCase s = map toLowerChar s"

definition trim :: "string \<Rightarrow> string" where
  "trim s = rev (dropWhile is_space (rev (dropWhile is_space s)))"

text \<open>
  The fragment of regular expressions the program uses.  Every quantifier of the source
  is applied to a single character class, so repetition is \<open>Rep cls lo hi\<close> (greedy,
  \<open>hi = None\<close> for no upper bound).  \<open>Grp\<close> is capture group 1, the only group the
  program reads.
\<close>

datatype regex =
    Lit char
  | Cls "char \<Rightarrow> bool"
  | Rep "char \<Rightarrow> bool" nat "nat option"
  | Bol
  | Eol
  | Wordb
  | Eps
  | Seq regex regex
  | Alt regex regex
  | Grp regex

text \<open>
  A matcher state is the text before the current position (reversed), the text from the
  position on, and the current capture.  The matcher is the backtracking one of ECMAScript:
  it lists the states in which a match of the expression can end, in the order in which
  backtracking tries them (first alternative first, longest repetition first).
\<close>

type_synonym mstate = "string \<times> string \<times> string option"

fun rep_m :: "(char \<Rightarrow> bool) \<Rightarrow> nat \<Rightarrow> nat option \<Rightarrow> string \<Rightarrow> string \<Rightarrow> string option
    \<Rightarrow> mstate list" where
  "rep_m p lo hi b [] g = (if lo = 0 then [(b, [], g)] else [])"
| "rep_m p lo hi b (x # xs) g =
     (if p x \<and> hi \<noteq> Some 0
      then rep_m p (lo - 1) (map_option (\<lambda>h. h - 1) hi) (x # b) xs g else [])
     @ (if lo = 0 then [(b, x # xs, g)] else [])"

definition wordy :: "string \<Rightarrow> bool" where
  "wordy s = (case s of [] \<Rightarrow> False | x # _ \<Rightarrow> is_word x)"

definition word_boundary :: "string \<Rightarrow> string \<Rightarrow> bool" where
  "word_boundary b r = (wordy b \<noteq> wordy r)"

fun rx_m :: "bool \<Rightarrow> regex \<Rightarrow> mstate \<Rightarrow> mstate list" where
  "rx_m ci (Lit c) (b, r, g) =
     (case r of [] \<Rightarrow> []
      | x # xs \<Rightarrow> if (if ci then canonicalize x = canonicalize c else x = c)
                  then [(x # b, xs, g)] else [])"
| "rx_m ci (Cls p) (b, r, g) =
     (case r of [] \<Rightarrow> [] | x # xs \<Rightarrow> if p x then [(x # b, xs, g)] else [])"
| "rx_m ci (Rep p lo hi) (b, r, g) = rep_m p lo hi b r g"
| "rx_m ci Bol (b, r, g) = (if b = [] then [(b, r, g)] else [])"
| "rx_m ci Eol (b, r, g) = (if r = [] then [(b, r, g)] else [])"
| "rx_m ci Wordb (b, r, g) = (if word_boundary b r then [(b, r, g)] else [])"
| "rx_m ci Eps s = [s]"
| "rx_m ci (Seq r1 r2) s = concat (map (rx_m ci r2) (rx_m ci r1 s))"
| "rx_m ci (Alt r1 r2) s = rx_m ci r1 s @ rx_m ci r2 s"
| "rx_m ci (Grp r1) (b, r, g) =
     map (\<lambda>(b', r', g'). (b', r', Some (rev (take (length b' - length b) b'))))
       (rx_m ci r1 (b, r, g))"

text \<open>The leftmost start position at which the expression matches, with the first match there.\<close>

fun rx_scan :: "bool \<Rightarrow> regex \<Rightarrow> string \<Rightarrow> string \<Rightarrow> (string \<times> mstate) option" where
  "rx_scan ci re b [] = (case rx_m ci re (b, [], None) of [] \<Rightarrow> None | s # _ \<Rightarrow> Some (b, s))"
| "rx_scan ci re b (x # xs) =
     (case rx_m ci re (b, x # xs, None) of
        [] \<Rightarrow> rx_scan ci re (x # b) xs
      | s # _ \<Rightarrow> Some (b, s))"

text \<open>
  \<open>text.match(re)\<close> for an expression without the \<open>g\<close> flag: \<open>matched\<close> is element 0
  of the result and \<open>group1\<close> element 1; \<open>before\<close> and \<open>after\<close> are the text around it.
\<close>

record rx_result =
  before :: string
  matched :: string
  group1 :: "string option"
  after :: string

definition rx_exec :: "bool \<Rightarrow> regex \<Rightarrow> string \<Rightarrow> rx_result option" where
  "rx_exec ci re text =
     (case rx_scan ci re [] text of
        None \<Rightarrow> None
      | Some (b, (b', r', g)) \<Rightarrow>
          Some \<lparr>before = rev b, matched = rev (take (length b' - length b) b'),
                group1 = g, after = r'\<rparr>)"

text \<open>\<open>re.test(text)\<close>.\<close>

definition rx_test :: "bool \<Rightarrow> regex \<Rightarrow> string \<Rightarrow> bool" where
  "rx_test ci re text = (rx_scan ci re [] text \<noteq> None)"

text \<open>\<open>text.replace(re, '')\<close> for an expression without the \<open>g\<close> flag.\<close>

definition rx_remove :: "bool \<Rightarrow> regex \<Rightarrow> string \<Rightarrow> string" where
  "rx_remove ci re text =
     (case rx_exec ci re text of None \<Rightarrow> text | Some m \<Rightarrow> before m @ after m)"

text \<open>Notation for writing the source's expressions down.\<close>

fun Str :: "string \<Rightarrow> regex" where
  "Str [] = Eps"
| "Str (c # cs) = Seq (Lit c) (Str cs)"

fun Alts :: "regex list \<Rightarrow> regex" where
  "Alts [] = Cls (\<lambda>c. False)"
| "Alts [r] = r"
| "Alts (r # rs) = Alt r (Alts rs)"

fun Seqs :: "regex list \<Rightarrow> regex" where
  "Seqs [] = Eps"
| "Seqs [r] = r"
| "Seqs (r # rs) = Seq r (Seqs rs)"

definition Star :: "(char \<Rightarrow> bool) \<Rightarrow> regex" where
  "Star p = Rep p 0 None"

definition Plus :: "(char \<Rightarrow> bool) \<Rightarrow> regex" where
  "Plus p = Rep p 1 None"

definition Opt :: "(char \<Rightarrow> bool) \<Rightarrow> regex" where
  "Opt p = Rep p 0 (Some 1)"

definition Times :: "nat \<Rightarrow> (char \<Rightarrow> bool) \<Rightarrow> regex" where
  "Times n p = Rep p n (Some n)"

definition AtLeast :: "nat \<Rightarrow> (char \<Rightarrow> bool) \<Rightarrow> regex" where
  "AtLeast n p = Rep p n None"

definition one_of :: "string \<Rightarrow> char \<Rightarrow> bool" where
  "one_of cs c = (c \<in> set cs)"

text \<open>\<open>^(?:w1|w2|...)\s*\<close>, the shape of every prefix pattern of \<open>basicTextCleaning\<close>.\<close>

definition prefix_pattern :: "string list \<Rightarrow> regex" where
  "prefix_pattern ws = Seqs [Bol, Alts (map Str ws), Star is_space]"

section \<open>Field cleaning of the sanitize route: \<open>basicTextCleaning\<close>\<close>

text \<open>The expressions of \<open>basicTextCleaning\<close>, in the order of the source.\<close>

definition name_prefixes1 :: regex where
  "name_prefixes1 = prefix_pattern
     [''my name is'', ''i am'', ''i'm'', ''call me'', ''name is'', ''my name'', ''i'm called'']"

definition name_prefixes2 :: regex where
  "name_prefixes2 = prefix_pattern [''this is'', ''it's'', ''it is'', ''just call me'']"

text \<open>\<open>/[\w.-]+@[\w.-]+\.\w+/\<close>\<close>

definition emailMatch_pattern :: regex where
  "emailMatch_pattern =
     Seqs [Plus (\<lambda>c. is_word c \<or> one_of ''.-'' c), Lit (CHR ''@''),
           Plus (\<lambda>c. is_word c \<or> one_of ''.-'' c), Lit (CHR ''.''), Plus is_word]"

definition email_prefixes1 :: regex where
  "email_prefixes1 = prefix_pattern
     [''my email is'', ''email is'', ''my email'', ''email address is'', ''you can reach me at'',
      ''contact me at'']"

definition email_prefixes2 :: regex where
  "email_prefixes2 = prefix_pattern [''send mail to'', ''send it to'', ''it's'']"

text \<open>\<open>\d{3}[-.\s]?\d{3}[-.\s]?\d{4}|\(\d{3}\)\s*\d{3}[-.\s]?\d{4}|\d{10}\<close>\<close>

definition phone_separator :: "char \<Rightarrow> bool" where
  "phone_separator c = (one_of ''-.'' c \<or> is_space c)"

definition phone_shapes :: regex where
  "phone_shapes = Alts
     [Seqs [Times 3 is_digit, Opt phone_separator, Times 3 is_digit, Opt phone_separator,
            Times 4 is_digit],
      Seqs [Lit (CHR ''(''), Times 3 is_digit, Lit (CHR '')''), Star is_space, Times 3 is_digit,
            Opt phone_separator, Times 4 is_digit],
      Times 10 is_digit]"

definition directMatch_pattern :: regex where
  "directMatch_pattern = Grp phone_shapes"

definition phone_prefixes1 :: regex where
  "phone_prefixes1 = prefix_pattern
     [''my phone is'', ''phone is'', ''my phone number is'', ''phone number is'', ''call me at'',
      ''reach me at'']"

definition phone_prefixes2 :: regex where
  "phone_prefixes2 = prefix_pattern
     [''you can reach me at'', ''contact me on'', ''my number is'', ''number is'']"

text \<open>
  \<open>phone.replace(/[^\d\s\-+().]/g, '')\<close> deletes every character outside the class, that
  is, keeps the characters below.
\<close>

definition phone_char :: "char \<Rightarrow> bool" where
  "phone_char c = (is_digit c \<or> is_space c \<or> one_of ''-+().'' c)"

definition address_prefixes1 :: regex where
  "address_prefixes1 = prefix_pattern
     [''my address is'', ''i live at'', ''address is'', ''location is'', ''residence is'',
      ''my home is'']"

definition address_prefixes2 :: regex where
  "address_prefixes2 = prefix_pattern
     [''i'm at'', ''you can find me at'', ''find me at'', ''i stay at'', ''i'm living at'']"

definition basicTextCleaning :: "string \<Rightarrow> string \<Rightarrow> string" where
  "basicTextCleaning text0 field =
     (let text = trim text0 in
      if field = ''name'' then
        trim (rx_remove True name_prefixes2 (rx_remove True name_prefixes1 text))
      else if field = ''email'' then
        (case rx_exec False emailMatch_pattern text of
           Some emailMatch \<Rightarrow> matched emailMatch
         | None \<Rightarrow> trim (rx_remove True email_prefixes2 (rx_remove True email_prefixes1 text)))
      else if field = ''phone'' then
        (case rx_exec False directMatch_pattern text of
           Some directMatch \<Rightarrow> matched directMatch
         | None \<Rightarrow>
             (let phone = trim (rx_remove True phone_prefixes2 (rx_remove True phone_prefixes1 text))
              in filter phone_char phone))
      else if field = ''address'' then
        trim (rx_remove True address_prefixes2 (rx_remove True address_prefixes1 text))
      else text)"

section \<open>Regex analysis of the sanitize route: \<open>processWithRegex\<close>\<close>

datatype FieldType = Name | Email | Phone | Address

text \<open>
  The JSON the analysis endpoint answers with: an optional \<open>submit\<close> entry, an optional
  entry per field kind, and the \<open>fromAI\<close> flag.  Confidences are the decimal numbers of
  the source as rationals; an entry that comes back from the language model may lack one.
\<close>

record SubmitEntry =
  submit_value :: bool
  submit_confidence :: "rat option"

record Entry =
  entry_value :: string
  entry_confidence :: "rat option"

record Analysis =
  submit :: "SubmitEntry option"
  entries :: "FieldType \<Rightarrow> Entry option"
  fromAI :: bool

text \<open>\<open>/\b(submit|send|done|finish|complete)\b/i\<close>, in \<open>PATCH\<close> and in \<open>processWithRegex\<close>.\<close>

definition submit_words :: "string list" where
  "submit_words = [''submit'', ''send'', ''done'', ''finish'', ''complete'']"

definition word_pattern :: "string list \<Rightarrow> regex" where
  "word_pattern ws = Seqs [Wordb, Grp (Alts (map Str ws)), Wordb]"

definition submitPattern :: regex where
  "submitPattern = word_pattern submit_words"

definition namePattern :: regex where
  "namePattern = Seqs [Wordb,
     Alts (map Str [''my name is'', ''i am'', ''i'm'', ''call me'', ''name is'', ''the name is'',
       ''name'', ''this is'']),
     Plus is_space,
     Grp (Plus (\<lambda>c. \<not> one_of '',.?!'' c))]"

definition emailPattern :: regex where
  "emailPattern = Seqs [Wordb,
     Plus (\<lambda>c. is_alpha c \<or> is_digit c \<or> one_of ''._%+-'' c), Lit (CHR ''@''),
     Plus (\<lambda>c. is_alpha c \<or> is_digit c \<or> one_of ''.-'' c), Lit (CHR ''.''),
     AtLeast 2 is_alpha, Wordb]"

definition phonePattern :: regex where
  "phonePattern = Seqs [Wordb, Grp phone_shapes, Wordb]"

definition addressPattern :: regex where
  "addressPattern = Seqs [Wordb,
     Alts (map Str [''my address is'', ''address is'', ''the address is'', ''my address'',
       ''address'', ''i live at'', ''i'm at'', ''i am at'', ''location is'', ''my location is'']),
     Plus is_space,
     Grp (Plus (\<lambda>c. \<not> one_of ''.?!'' c))]"

text \<open>\<open>if (m && m[1]) ... m[1].trim()\<close>: the trimmed capture of a match, when it is not empty.\<close>

definition captured :: "rx_result option \<Rightarrow> string option" where
  "captured m =
     (case m of None \<Rightarrow> None
      | Some r \<Rightarrow> (case group1 r of None \<Rightarrow> None
                   | Some g \<Rightarrow> if g = [] then None else Some (trim g)))"

definition processWithRegex :: "string \<Rightarrow> Analysis" where
  "processWithRegex text =
     (let submitEntry =
            (if rx_test True submitPattern text
             then Some \<lparr>submit_value = True, submit_confidence = Some (9 / 10)\<rparr> else None);
          nameEntry =
            map_option (\<lambda>v. \<lparr>entry_value = v, entry_confidence = Some (8 / 10)\<rparr>)
              (captured (rx_exec True namePattern text));
          emailEntry =
            map_option (\<lambda>m. \<lparr>entry_value = matched m, entry_confidence = Some (9 / 10)\<rparr>)
              (rx_exec True emailPattern text);
          phoneEntry =
            map_option (\<lambda>m. \<lparr>entry_value = matched m, entry_confidence = Some (9 / 10)\<rparr>)
              (rx_exec False phonePattern text);
          addressEntry =
            map_option (\<lambda>v. \<lparr>entry_value = v, entry_confidence = Some (7 / 10)\<rparr>)
              (captured (rx_exec True addressPattern text))
      in \<lparr>submit = submitEntry,
          entries = (\<lambda>f. case f of Name \<Rightarrow> nameEntry | Email \<Rightarrow> emailEntry
                          | Phone \<Rightarrow> phoneEntry | Address \<Rightarrow> addressEntry),
          fromAI = False\<rparr>)"

section \<open>The two endpoints of the sanitize route\<close>

text \<open>
  What a request handler reads from outside: the configured API key, the clock at the
  \<open>isRateLimited\<close> check and after the remote call, and the random draw of a failure.
\<close>

record Env =
  apiKey :: "string option"
  gateClock :: int
  replyClock :: int
  mathRandom :: rat

text \<open>\<open>if (apiKey)\<close>: the key is set and not the empty string.\<close>

definition configured :: "Env \<Rightarrow> bool" where
  "configured env = (case apiKey env of None \<Rightarrow> False | Some k \<Rightarrow> k \<noteq> [])"

text \<open>
  The outcome of the \<open>fetch\<close> to the language model: the call throws (transport error), or
  a response arrives with a status and a body.  Of the body the handlers read only the
  text of the first candidate; \<open>'a\<close> is what they make of it (\<open>POST\<close>: the text itself;
  \<open>PATCH\<close>: the result of \<open>JSON.parse\<close> on it, \<open>None\<close> when that throws).
\<close>

datatype 'a remote_body = BodyUnreadable | NoCandidateText | CandidateText 'a

datatype 'a remote_reply = FetchThrows | HttpReply nat "'a remote_body"

text \<open>\<open>response.ok\<close>\<close>

definition status_ok :: "nat \<Rightarrow> bool" where
  "status_ok status = (200 \<le> status \<and> status \<le> 299)"

datatype 'a response = ErrorJson nat string | OkJson 'a

text \<open>
  \<open>POST\<close>: clean one field.  The request body is \<open>None\<close> when \<open>request.json()\<close> throws;
  its \<open>text\<close> and \<open>field\<close> are \<open>None\<close> when missing or not strings.  The answer is
  \<open>(sanitizedText, fromAI)\<close>.
\<close>

definition POST :: "Env \<Rightarrow> string remote_reply \<Rightarrow> (string option \<times> string option) option
    \<Rightarrow> RateLimitState \<Rightarrow> (string \<times> bool) response \<times> RateLimitState" where
  "POST env reply body s =
     (case body of
        None \<Rightarrow> (ErrorJson 500 ''Failed to process text'', s)
      | Some (None, _) \<Rightarrow> (ErrorJson 400 ''Invalid text input'', s)
      | Some (Some text, fieldv) \<Rightarrow>
          if text = [] then (ErrorJson 400 ''Invalid text input'', s)
          else (case fieldv of
             None \<Rightarrow> (ErrorJson 400 ''Invalid field type'', s)
           | Some field \<Rightarrow>
               if field \<notin> set [''name'', ''email'', ''phone'', ''address'']
               then (ErrorJson 400 ''Invalid field type'', s)
               else
                 (let basicResult = OkJson (basicTextCleaning text field, False) in
                  if configured env then
                    (case isRateLimited (gateClock env) s of
                       (True, s1) \<Rightarrow> (basicResult, s1)
                     | (False, s1) \<Rightarrow>
                         (case reply of
                            FetchThrows \<Rightarrow> (basicResult, s1)
                          | HttpReply status b \<Rightarrow>
                              if \<not> status_ok status then
                                (if status = 429
                                 then (basicResult,
                                       handleRateLimit (mathRandom env) (replyClock env) s1)
                                 else (basicResult, s1))
                              else
                                (let s2 = handleSuccessfulRequest (replyClock env) s1 in
                                 case b of
                                   BodyUnreadable \<Rightarrow> (basicResult, s2)
                                 | NoCandidateText \<Rightarrow> (basicResult, s2)
                                 | CandidateText t \<Rightarrow>
                                     if t \<noteq> [] \<and> trim t \<noteq> []
                                     then (OkJson (trim t, True), s2)
                                     else (basicResult, s2))))
                  else (basicResult, s))))"

text \<open>\<open>PATCH\<close>: analyse an utterance.  The request body is its \<open>text\<close>, as for \<open>POST\<close>.\<close>

definition PATCH :: "Env \<Rightarrow> Analysis option remote_reply \<Rightarrow> string option option
    \<Rightarrow> RateLimitState \<Rightarrow> Analysis response \<times> RateLimitState" where
  "PATCH env reply body s =
     (case body of
        None \<Rightarrow> (ErrorJson 500 ''Failed to analyze text'', s)
      | Some None \<Rightarrow> (ErrorJson 400 ''Invalid text input'', s)
      | Some (Some text) \<Rightarrow>
          if text = [] then (ErrorJson 400 ''Invalid text input'', s)
          else if rx_test True submitPattern text then
            (OkJson \<lparr>submit = Some \<lparr>submit_value = True, submit_confidence = Some (95 / 100)\<rparr>,
                     entries = (\<lambda>f. None), fromAI = False\<rparr>, s)
          else if configured env then
            (case isRateLimited (gateClock env) s of
               (True, s1) \<Rightarrow> (OkJson (processWithRegex text), s1)
             | (False, s1) \<Rightarrow>
                 (case reply of
                    FetchThrows \<Rightarrow> (OkJson (processWithRegex text), s1)
                  | HttpReply status b \<Rightarrow>
                      if \<not> status_ok status then
                        (if status = 429
                         then (OkJson (processWithRegex text),
                               handleRateLimit (mathRandom env) (replyClock env) s1)
                         else (OkJson (processWithRegex text), s1))
                      else
                        (let s2 = handleSuccessfulRequest (replyClock env) s1 in
                         case b of
                           BodyUnreadable \<Rightarrow> (OkJson (processWithRegex text), s2)
                         | NoCandidateText \<Rightarrow> (OkJson (processWithRegex text), s2)
                         | CandidateText None \<Rightarrow> (OkJson (processWithRegex text), s2)
                         | CandidateText (Some parsedResult) \<Rightarrow>
                             (OkJson (parsedResult\<lparr>fromAI := True\<rparr>), s2))))
          else (OkJson (processWithRegex text), s))"

section \<open>The voice input component (src/app/components/VoiceInput.tsx)\<close>

datatype IntentType = Provide_info | Submit | Clear | Unknown

record DetectedField =
  field :: FieldType
  val :: string
  confidence :: rat

record VoiceUnderstanding =
  intent :: IntentType
  detectedFields :: "DetectedField list"
  originalText :: string

text \<open>\<open>/\b(submit|send|done)\b/i\<close> and \<open>/\b(clear|reset)\b/i\<close> of \<open>analyzeVoiceInput\<close>.\<close>

definition local_submit_words :: "string list" where
  "local_submit_words = [''submit'', ''send'', ''done'']"

definition local_clear_words :: "string list" where
  "local_clear_words = [''clear'', ''reset'']"

definition analyzeVoiceInput :: "string \<Rightarrow> VoiceUnderstanding" where
  "analyzeVoiceInput text =
     (let normalizedText = trim (toLowerCase text) in
      if rx_test True (word_pattern local_submit_words) normalizedText then
        \<lparr>intent = Submit, detectedFields = [], originalText = text\<rparr>
      else if rx_test True (word_pattern local_clear_words) normalizedText then
        \<lparr>intent = Clear, detectedFields = [], originalText = text\<rparr>
      else \<lparr>intent = Unknown, detectedFields = [], originalText = text\<rparr>)"

text \<open>\<open>data[fieldName].confidence || 0.8\<close>\<close>

definition confidence_or_default :: "rat option \<Rightarrow> rat" where
  "confidence_or_default c = (case c of None \<Rightarrow> 8 / 10 | Some x \<Rightarrow> if x = 0 then 8 / 10 else x)"

text \<open>The loop over \<open>['name', 'email', 'phone', 'address']\<close> that collects the entries present.\<close>

definition fields_of :: "Analysis \<Rightarrow> DetectedField list" where
  "fields_of data =
     concat (map (\<lambda>fieldName.
         case entries data fieldName of
           None \<Rightarrow> []
         | Some e \<Rightarrow> [\<lparr>field = fieldName, val = entry_value e,
                         confidence = confidence_or_default (entry_confidence e)\<rparr>])
       [Name, Email, Phone, Address])"

text \<open>
  \<open>processVoiceInput\<close>.  \<open>fetched\<close> is what the request to the analysis endpoint comes
  back with when it is made: \<open>None\<close> when the \<open>fetch\<close> fails or is aborted by the five
  second timer, otherwise the endpoint's response.  The result is the understanding handed
  to \<open>onVoiceInput\<close>, \<open>None\<close> when the callback is not called.  (The \<open>processing\<close> and
  \<open>rateLimitHit\<close> display flags are left out.)
\<close>

definition processVoiceInput :: "bool \<Rightarrow> Analysis response option \<Rightarrow> string
    \<Rightarrow> VoiceUnderstanding option" where
  "processVoiceInput useAI fetched text =
     (if text = [] \<or> trim text = [] then None
      else
        (let basicIntent = analyzeVoiceInput text in
         if useAI then
           (case fetched of
              Some (OkJson data) \<Rightarrow>
                if (case submit data of None \<Rightarrow> False | Some e \<Rightarrow> submit_value e) then
                  Some \<lparr>intent = Submit, detectedFields = [], originalText = text\<rparr>
                else if fields_of data \<noteq> [] then
                  Some \<lparr>intent = Provide_info, detectedFields = fields_of data,
                        originalText = text\<rparr>
                else if intent basicIntent \<noteq> Unknown then Some basicIntent
                else Some \<lparr>intent = Unknown, detectedFields = [], originalText = text\<rparr>
            | Some (ErrorJson status msg) \<Rightarrow> Some basicIntent
            | None \<Rightarrow> Some basicIntent)
         else Some basicIntent))"

text \<open>
  The pipeline from an utterance to its understanding: the component, and behind it the
  \<open>PATCH\<close> endpoint when the request gets through (\<open>delivered\<close>).
\<close>

definition pipeline :: "bool \<Rightarrow> bool \<Rightarrow> Env \<Rightarrow> Analysis option remote_reply \<Rightarrow> RateLimitState
    \<Rightarrow> string \<Rightarrow> VoiceUnderstanding option" where
  "pipeline useAI delivered env reply s text =
     processVoiceInput useAI
       (if delivered then Some (fst (PATCH env reply (Some (Some text)) s)) else None) text"

text \<open>
  The \<open>onerror\<close> handler of the recognition device, on the two pieces of state it writes:
  the \<open>listening\<close> flag (through \<open>setListening\<close>) and the error line shown to the user.
\<close>

record Session =
  listening :: bool
  error :: string

definition onerror :: "string \<Rightarrow> Session \<Rightarrow> Session" where
  "onerror event_error st =
     (let st1 =
        (if event_error = ''not-allowed'' then
           st\<lparr>error := ''Microphone access denied. Please allow microphone access and try again.''\<rparr>
         else if event_error = ''no-speech'' then
           st\<lparr>error := ''No speech detected. Please try speaking again.''\<rparr>
         else if event_error = ''network'' then
           st\<lparr>error := ''Network error. Check your internet connection and try again.''\<rparr>
         else if event_error = ''aborted'' then st
         else st\<lparr>error := ''Error: '' @ event_error @ ''. Please try again.''\<rparr>)
      in if event_error \<noteq> ''aborted'' then st1\<lparr>listening := False\<rparr> else st1)"

section \<open>The form page (handleVoiceInput and what it calls)\<close>

record FormData =
  name :: string
  email :: string
  phone :: string
  address :: string

fun get_field :: "FieldType \<Rightarrow> FormData \<Rightarrow> string" where
  "get_field Name d = name d"
| "get_field Email d = email d"
| "get_field Phone d = phone d"
| "get_field Address d = address d"

fun set_field :: "FieldType \<Rightarrow> string \<Rightarrow> FormData \<Rightarrow> FormData" where
  "set_field Name v d = d\<lparr>name := v\<rparr>"
| "set_field Email v d = d\<lparr>email := v\<rparr>"
| "set_field Phone v d = d\<lparr>phone := v\<rparr>"
| "set_field Address v d = d\<lparr>address := v\<rparr>"

text \<open>A callback waiting in \<open>setTimeout\<close>: the navigation, or the focus-and-fill of an input.\<close>

datatype timer = Navigate string | FillInput FieldType string

text \<open>
  The page: its React state (\<open>formData\<close>, \<open>formErrors\<close>, \<open>activeField\<close>, the message line
  that the source calls \<open>error\<close>, \<open>lastSpeech\<close>) and the browser around it (the values of
  the input elements by id, \<open>localStorage\<close>, the pending timers).
\<close>

record Page =
  formData :: FormData
  formErrors :: "FieldType \<Rightarrow> string option"
  activeField :: "FieldType option"
  message :: string
  lastSpeech :: string
  inputs :: "string \<Rightarrow> string option"
  localStorage :: "string \<Rightarrow> FormData option"
  timers :: "timer list"

text \<open>\<open>/^[^\s@]+@[^\s@]+\.[^\s@]+$/\<close>\<close>

definition isValidEmail :: "string \<Rightarrow> bool" where
  "isValidEmail s = rx_test False
     (Seqs [Bol, Plus (\<lambda>c. \<not> (is_space c \<or> c = CHR ''@'')), Lit (CHR ''@''),
            Plus (\<lambda>c. \<not> (is_space c \<or> c = CHR ''@'')), Lit (CHR ''.''),
            Plus (\<lambda>c. \<not> (is_space c \<or> c = CHR ''@'')), Eol]) s"

text \<open>\<open>/^[\d\s()+-.]{10,15}$/\<close>; in the class, \<open>+-.\<close> is the range from \<open>+\<close> to \<open>.\<close>.\<close>

definition isValidPhone :: "string \<Rightarrow> bool" where
  "isValidPhone s = rx_test False
     (Seqs [Bol,
            Rep (\<lambda>c. is_digit c \<or> is_space c \<or> one_of ''()'' c
                   \<or> (43 \<le> (of_char c :: nat) \<and> (of_char c :: nat) \<le> 46)) 10 (Some 15),
            Eol]) s"

text \<open>
  \<open>handleFieldUpdate\<close>.  The functional state updates act on the current state \<open>p\<close>; the
  reads of \<open>formErrors\<close> and (in \<open>checkFormProgress\<close>) of \<open>formData\<close> see the values of the
  render in which the handler was created, \<open>rendered\<close>.
\<close>

definition handleFieldUpdate :: "Page \<Rightarrow> FieldType \<Rightarrow> string \<Rightarrow> Page \<Rightarrow> Page" where
  \<open>handleFieldUpdate rendered f v p =
     (let p1 = p\<lparr>formData := set_field f v (formData p), activeField := Some f\<rparr>;
          p2 = (if (case formErrors rendered f of None \<Rightarrow> False | Some e \<Rightarrow> e \<noteq> [])
                then p1\<lparr>formErrors := (formErrors p1)(f := None)\<rparr> else p1);
          p3 = (if f = Email \<and> v \<noteq> [] \<and> \<not> isValidEmail v
                then p2\<lparr>formErrors := (formErrors p2)(Email := Some ''Please enter a valid email address'')\<rparr>
                else if f = Phone \<and> v \<noteq> [] \<and> \<not> isValidPhone v
                then p2\<lparr>formErrors := (formErrors p2)(Phone := Some ''Please enter a valid phone number'')\<rparr>
                else p2);
          p4 = p3\<lparr>timers := timers p3 @ [FillInput f v]\<rparr>
      in if name (formData rendered) \<noteq> [] \<or> email (formData rendered) \<noteq> []
            \<or> phone (formData rendered) \<noteq> [] \<or> address (formData rendered) \<noteq> []
         then p4\<lparr>message := ''Say "submit" when you're ready to submit the form.''\<rparr>
         else p4)\<close>

definition handleClearForm :: "Page \<Rightarrow> Page" where
  "handleClearForm p =
     p\<lparr>formData := \<lparr>name = [], email = [], phone = [], address = []\<rparr>,
       formErrors := (\<lambda>f. None),
       activeField := None,
       message := ''Form has been cleared. You can start over.''\<rparr>"

text \<open>\<open>(document.getElementById(id) as HTMLInputElement)?.value || ''\<close>\<close>

definition input_value :: "Page \<Rightarrow> string \<Rightarrow> string" where
  "input_value p ident = (case inputs p ident of None \<Rightarrow> [] | Some v \<Rightarrow> v)"

text \<open>
  \<open>handleVoiceInput\<close>.  \<open>storageThrows\<close> tells whether \<open>localStorage.setItem\<close> throws;
  the stored JSON text is represented by the record it serialises.
\<close>

definition handleVoiceInput :: "bool \<Rightarrow> VoiceUnderstanding \<Rightarrow> Page \<Rightarrow> Page" where
  \<open>handleVoiceInput storageThrows understanding p =
     (let p0 = p\<lparr>lastSpeech := originalText understanding, message := []\<rparr> in
      case intent understanding of
        Submit \<Rightarrow>
          (let submissionData =
                 \<lparr>name = trim (input_value p ''name''), email = trim (input_value p ''email''),
                  phone = trim (input_value p ''phone''),
                  address = trim (input_value p ''address'')\<rparr>;
               hasAnyData = (name submissionData \<noteq> [] \<or> email submissionData \<noteq> []
                  \<or> phone submissionData \<noteq> [] \<or> address submissionData \<noteq> [])
           in if \<not> hasAnyData
              then p0\<lparr>message := ''Please provide some information before submitting.''\<rparr>
              else if storageThrows
              then p0\<lparr>message := ''Failed to submit the form. Please try again.''\<rparr>
              else p0\<lparr>localStorage := (localStorage p0)(''formData'' := Some submissionData),
                      timers := timers p0 @ [Navigate ''/confirmation'']\<rparr>)
      | Clear \<Rightarrow> handleClearForm p0
      | Provide_info \<Rightarrow>
          if detectedFields understanding \<noteq> [] then
            (let p1 = foldl (\<lambda>q d. if val d \<noteq> [] then handleFieldUpdate p (field d) (val d) q else q)
                        p0 (detectedFields understanding)
             in case sort_key (\<lambda>d. - confidence d) (detectedFields understanding) of
                  [] \<Rightarrow> p1
                | highestConfidenceField # _ \<Rightarrow>
                    p1\<lparr>activeField := Some (field highestConfidenceField)\<rparr>)
          else p0\<lparr>message := ''No specific fields were detected in your speech. Please try again with clearer details.''\<rparr>
      | Unknown \<Rightarrow>
          p0\<lparr>message := ''I didn't understand that. Please try a phrase like "My name is..." or say "submit" when ready.''\<rparr>)\<close>

section \<open>Classification of remote failures\<close>

text \<open>
  A failure of the remote call that is not a rate limit: the \<open>fetch\<close> throws (transport
  error, timeout), or the response has a status that is neither a success nor 429.
\<close>

definition transient_failure :: "'a remote_reply \<Rightarrow> bool" where
  "transient_failure reply =
     (case reply of FetchThrows \<Rightarrow> True
      | HttpReply status b \<Rightarrow> \<not> status_ok status \<and> status \<noteq> 429)"

section \<open>When no pattern of \<open>basicTextCleaning\<close> applies\<close>

text \<open>
  For a field kind and a text: the field's own pattern (the email or phone shape) does not
  occur in the trimmed text, and neither of the field's two prefix patterns matches it.
\<close>

definition no_pattern_applies :: "string \<Rightarrow> string \<Rightarrow> bool" where
  "no_pattern_applies text0 fld =
     (let text = trim text0 in
      if fld = ''name'' then
        \<not> rx_test True name_prefixes1 text \<and> \<not> rx_test True name_prefixes2 text
      else if fld = ''email'' then
        \<not> rx_test False emailMatch_pattern text \<and>
        \<not> rx_test True email_prefixes1 text \<and> \<not> rx_test True email_prefixes2 text
      else if fld = ''phone'' then
        \<not> rx_test False directMatch_pattern text \<and>
        \<not> rx_test True phone_prefixes1 text \<and> \<not> rx_test True phone_prefixes2 text
      else if fld = ''address'' then
        \<not> rx_test True address_prefixes1 text \<and> \<not> rx_test True address_prefixes2 text
      else True)"

section \<open>Whole words, declaratively\<close>

text \<open>
  What \<open>\b(w1|w2|...)\b\<close> with the \<open>i\<close> flag looks for, said without the matcher: the
  text splits at a word boundary into a front and a rest, the rest starts, up to case,
  with one of the words, and a word boundary follows the word.  (The first component of
  \<open>word_at\<close> is the front reversed, as in the matcher's states.)
\<close>

definition ci_prefix :: "string \<Rightarrow> string \<Rightarrow> bool" where
  "ci_prefix w r =
     (length w \<le> length r \<and> map canonicalize (take (length w) r) = map canonicalize w)"

definition word_at :: "string list \<Rightarrow> string \<Rightarrow> string \<Rightarrow> bool" where
  "word_at ws b r =
     (word_boundary b r \<and>
      (\<exists>w \<in> set ws. ci_prefix w r \<and>
         word_boundary (rev (take (length w) r) @ b) (drop (length w) r)))"

definition has_word :: "string list \<Rightarrow> string \<Rightarrow> bool" where
  "has_word ws s = (\<exists>front r. s = front @ r \<and> word_at ws (rev front) r)"

definition is_lower :: "char \<Rightarrow> bool" where
  "is_lower c = (let n = (of_char c :: nat) in 97 \<le> n \<and> n \<le> 122)"

text \<open>Word lists as the program has them: non-empty words of lower-case ASCII letters.\<close>

definition lower_words :: "string list \<Rightarrow> bool" where
  "lower_words ws = list_all (\<lambda>w. w \<noteq> [] \<and> list_all is_lower w) ws"

text \<open>
  An occurrence of the word \<open>w\<close>: the letters \<open>m\<close> that spell it up to case, with
  no word character right before them (\<open>b\<close> is the front reversed) or right after.
\<close>

definition occurs :: "string \<Rightarrow> string \<Rightarrow> string \<Rightarrow> string \<Rightarrow> bool" where
  "occurs w b m rest =
     (m \<noteq> [] \<and> list_all is_alpha m \<and> map canonicalize m = map canonicalize w \<and>
      \<not> wordy b \<and> \<not> wordy rest)"

section \<open>Properties of the rate limiting state\<close>

lemma rl_step_backoff:
  assumes "1000 \<le> backoffMs s" "backoffMs s \<le> 30000" "random_ok c"
  shows "1000 \<le> backoffMs (rl_step s c) \<and> backoffMs (rl_step s c) \<le> 30000"
proof (cases c)
  case (IsRateLimited now)
  with assms show ?thesis by (simp add: isRateLimited_def)
next
  case (RecordFailure random now)
  with assms have r: "0 \<le> random" by simp
  define x where "x = backoffMs s * 2 * (1 / 2 + random)"
  have "x = backoffMs s + backoffMs s * 2 * random"
    by (simp add: x_def algebra_simps)
  moreover have "0 \<le> backoffMs s * 2 * random"
    using assms(1) r by simp
  ultimately have "1000 \<le> x"
    using assms(1) by linarith
  moreover have "backoffMs (rl_step s c) = min 30000 x"
    by (simp add: RecordFailure handleRateLimit_def Let_def x_def)
  ultimately show ?thesis by simp
next
  case (RecordSuccess now)
  with assms show ?thesis by (simp add: handleSuccessfulRequest_def Let_def)
qed

lemma foldl_rl_step_backoff:
  "1000 \<le> backoffMs s \<Longrightarrow> backoffMs s \<le> 30000 \<Longrightarrow> list_all random_ok calls \<Longrightarrow>
   1000 \<le> backoffMs (foldl rl_step s calls) \<and> backoffMs (foldl rl_step s calls) \<le> 30000"
proof (induction calls arbitrary: s)
  case Nil
  then show ?case by simp
next
  case (Cons c calls)
  from Cons.prems have "1000 \<le> backoffMs (rl_step s c) \<and> backoffMs (rl_step s c) \<le> 30000"
    using rl_step_backoff [of s c] by simp
  with Cons.IH [of "rl_step s c"] Cons.prems show ?case by simp
qed

lemma rl_step_errors: "0 \<le> consecutiveErrors s \<Longrightarrow> 0 \<le> consecutiveErrors (rl_step s c)"
  by (cases c) (simp_all add: isRateLimited_def handleRateLimit_def handleSuccessfulRequest_def Let_def)

lemma foldl_rl_step_errors:
  "0 \<le> consecutiveErrors s \<Longrightarrow> 0 \<le> consecutiveErrors (foldl rl_step s calls)"
  by (induction calls arbitrary: s) (simp_all add: rl_step_errors)

lemma rl_run_errors: "0 \<le> consecutiveErrors (rl_run calls)"
  unfolding rl_run_def by (rule foldl_rl_step_errors) (simp add: rateLimitState_def)

lemma rl_run_backoff:
  "list_all random_ok calls \<Longrightarrow>
   1000 \<le> backoffMs (rl_run calls) \<and> backoffMs (rl_run calls) \<le> 30000"
  unfolding rl_run_def by (rule foldl_rl_step_backoff) (simp_all add: rateLimitState_def)

text \<open>
  Claim C3.  Starting from the initial state (backoff 1000, no cooldown), after every
  sequence of \<open>isRateLimited\<close>, \<open>handleRateLimit\<close> and \<open>handleSuccessfulRequest\<close> calls
  whose jitters lie in \<open>[0.5, 1.5)\<close>, the backoff is in \<open>[1000, 30000]\<close>; in particular any
  number of consecutive failures keeps it at or below 30000.
\<close>

theorem backoff_in_bounds:
  "list_all random_ok calls \<Longrightarrow>
   1000 \<le> backoffMs (rl_run calls) \<and> backoffMs (rl_run calls) \<le> 30000 \<and>
   backoffMs (rl_run (calls @ map (\<lambda>(random, now). RecordFailure random now) fails)) \<le> 30000"
proof -
  assume ok: "list_all random_ok calls"
  have "backoffMs (foldl rl_step s (map (\<lambda>(random, now). RecordFailure random now) fails)) \<le> 30000"
    if "backoffMs s \<le> 30000" for s
    using that
  proof (induction fails arbitrary: s)
    case Nil
    then show ?case by simp
  next
    case (Cons f fails)
    obtain random now where f: "f = (random, now)" by (cases f)
    have "backoffMs (handleRateLimit random now s) \<le> 30000"
      by (simp add: handleRateLimit_def Let_def)
    from Cons.IH [OF this] show ?case by (simp add: f)
  qed
  with rl_run_backoff [OF ok] show ?thesis by (simp add: rl_run_def)
qed

theorem backoff_in_bounds_witness:
  "list_all random_ok [RecordFailure (9 / 10) 5, RecordFailure (1 / 2) 7, IsRateLimited 9,
      RecordSuccess 20000, RecordFailure 0 20001] \<and>
   backoffMs (rl_run [RecordFailure (9 / 10) 5, RecordFailure (1 / 2) 7, IsRateLimited 9,
      RecordSuccess 20000, RecordFailure 0 20001]) = 1000 \<and>
   backoffMs (rl_run ([RecordFailure (9 / 10) 5, RecordFailure (1 / 2) 7, IsRateLimited 9,
      RecordSuccess 20000, RecordFailure 0 20001] @
      map (\<lambda>(random, now). RecordFailure random now)
        [(9 / 10, 20002), (9 / 10, 20003), (9 / 10, 20004), (9 / 10, 20005)])) = 30000"
  using backoff_in_bounds [of "[RecordFailure (9 / 10) 5, RecordFailure (1 / 2) 7, IsRateLimited 9,
      RecordSuccess 20000, RecordFailure 0 20001]"
      "[(9 / 10, 20002), (9 / 10, 20003), (9 / 10, 20004), (9 / 10, 20005)]"]
  by (simp add: rl_run_def rateLimitState_def isRateLimited_def handleRateLimit_def
      handleSuccessfulRequest_def Let_def)

text \<open>
  Claim C4.  In every reachable state, \<open>isRateLimited\<close> called at the very clock value
  of a \<open>handleRateLimit\<close> call answers true; and in any state, once
  \<open>now - lastRequestTime > backoffMs\<close>, it answers false and leaves the state with the
  \<open>inCooldown\<close> flag cleared (and nothing else touched).
\<close>

theorem isRateLimited_after_failure:
  "list_all random_ok calls \<Longrightarrow> 0 \<le> random \<Longrightarrow> random < 1 \<Longrightarrow>
   fst (isRateLimited now (handleRateLimit random now (rl_run calls))) = True \<and>
   (of_int (t - lastRequestTime s) > backoffMs s \<longrightarrow>
      isRateLimited t s = (False, s\<lparr>inCooldown := False\<rparr>))"
proof -
  assume ok: "list_all random_ok calls" and r: "0 \<le> random" "random < 1"
  define s0 where "s0 = rl_run calls"
  have b: "1000 \<le> backoffMs s0"
    using rl_run_backoff [OF ok] by (simp add: s0_def)
  have "random_ok (RecordFailure random now)"
    using r by simp
  from rl_step_backoff [of s0 "RecordFailure random now"] b this rl_run_backoff [OF ok]
  have "1000 \<le> backoffMs (handleRateLimit random now s0)"
    by (simp add: s0_def)
  moreover have "lastRequestTime (handleRateLimit random now s0) = now"
    and "inCooldown (handleRateLimit random now s0)"
    by (simp_all add: handleRateLimit_def Let_def)
  ultimately have "fst (isRateLimited now (handleRateLimit random now s0)) = True"
    by (simp add: isRateLimited_def)
  moreover have "of_int (t - lastRequestTime s) > backoffMs s \<longrightarrow>
      isRateLimited t s = (False, s\<lparr>inCooldown := False\<rparr>)"
    by (simp add: isRateLimited_def)
  ultimately show ?thesis
    by (simp add: s0_def)
qed

theorem isRateLimited_after_failure_witness:
  "list_all random_ok [RecordFailure (1 / 4) 50, RecordSuccess 60] \<and> (0::rat) \<le> 1 / 2 \<and>
   (1 / 2 :: rat) < 1 \<and>
   fst (isRateLimited 100 (handleRateLimit (1 / 2) 100
     (rl_run [RecordFailure (1 / 4) 50, RecordSuccess 60]))) = True \<and>
   of_int (2101 - lastRequestTime (handleRateLimit (1 / 2) 100
     (rl_run [RecordFailure (1 / 4) 50, RecordSuccess 60])))
     > backoffMs (handleRateLimit (1 / 2) 100 (rl_run [RecordFailure (1 / 4) 50, RecordSuccess 60])) \<and>
   isRateLimited 2101 (handleRateLimit (1 / 2) 100
     (rl_run [RecordFailure (1 / 4) 50, RecordSuccess 60])) =
   (False, \<lparr>lastRequestTime = 100, consecutiveErrors = 1, backoffMs = 2000, inCooldown = False\<rparr>)"
  using isRateLimited_after_failure [where calls = "[RecordFailure (1 / 4) 50, RecordSuccess 60]"
      and random = "1 / 2" and now = 100 and t = 2101
      and s = "handleRateLimit (1 / 2) 100 (rl_run [RecordFailure (1 / 4) 50, RecordSuccess 60])"]
  by (simp add: rl_run_def rateLimitState_def isRateLimited_def handleRateLimit_def
      handleSuccessfulRequest_def Let_def)

text \<open>
  Claim C5.  In every reachable state, a \<open>handleRateLimit\<close> call followed by a
  \<open>handleSuccessfulRequest\<close> call leaves \<open>consecutiveErrors = 0\<close> and
  \<open>backoffMs = 1000\<close>, with \<open>lastRequestTime\<close> the clock value read by the
  success call.
\<close>

theorem success_after_failure_resets:
  "consecutiveErrors (handleSuccessfulRequest t2 (handleRateLimit random t1 (rl_run calls))) = 0 \<and>
   backoffMs (handleSuccessfulRequest t2 (handleRateLimit random t1 (rl_run calls))) = 1000 \<and>
   lastRequestTime (handleSuccessfulRequest t2 (handleRateLimit random t1 (rl_run calls))) = t2"
proof -
  have "0 < consecutiveErrors (handleRateLimit random t1 (rl_run calls))"
    using rl_run_errors [of calls] by (simp add: handleRateLimit_def Let_def)
  then show ?thesis
    by (simp add: handleSuccessfulRequest_def Let_def)
qed

theorem success_after_failure_resets_witness:
  "handleSuccessfulRequest 900 (handleRateLimit (3 / 4) 700
     (rl_run [RecordFailure (1 / 4) 50, IsRateLimited 60])) =
   \<lparr>lastRequestTime = 900, consecutiveErrors = 0, backoffMs = 1000, inCooldown = True\<rparr>"
  using success_after_failure_resets [where ?t2.0 = 900 and random = "3 / 4" and ?t1.0 = 700
      and calls = "[RecordFailure (1 / 4) 50, IsRateLimited 60]"]
  by (simp add: rl_run_def rateLimitState_def isRateLimited_def handleRateLimit_def
      handleSuccessfulRequest_def Let_def)
section \<open>The pipeline on the two-field utterance\<close>

lemma bob_analyze:
  "analyzeVoiceInput ''my name is Bob and my email is bob@x.com'' =
     \<lparr>intent = Unknown, detectedFields = [],
      originalText = ''my name is Bob and my email is bob@x.com''\<rparr>"
  by code_simp

lemma bob_trim: "trim ''my name is Bob and my email is bob@x.com'' \<noteq> []"
  by code_simp

lemma bob_no_submit:
  "rx_test True submitPattern ''my name is Bob and my email is bob@x.com'' = False"
  by code_simp

lemma bob_regex_submit:
  "submit (processWithRegex ''my name is Bob and my email is bob@x.com'') = None"
  by code_simp

lemma bob_regex_fields:
  "fields_of (processWithRegex ''my name is Bob and my email is bob@x.com'') =
     [\<lparr>field = Name, val = ''Bob and my email is bob@x'', confidence = 8 / 10\<rparr>,
      \<lparr>field = Email, val = ''bob@x.com'', confidence = 9 / 10\<rparr>]"
  by code_simp

lemma bob_ai_off:
  "pipeline False delivered env reply s ''my name is Bob and my email is bob@x.com'' =
     Some \<lparr>intent = Unknown, detectedFields = [],
           originalText = ''my name is Bob and my email is bob@x.com''\<rparr>"
  using bob_trim by (simp add: pipeline_def processVoiceInput_def bob_analyze)

lemma bob_no_key:
  "pipeline True True \<lparr>apiKey = None, gateClock = t1, replyClock = t2, mathRandom = r\<rparr> reply s
     ''my name is Bob and my email is bob@x.com'' =
     Some \<lparr>intent = Provide_info,
           detectedFields =
             [\<lparr>field = Name, val = ''Bob and my email is bob@x'', confidence = 8 / 10\<rparr>,
              \<lparr>field = Email, val = ''bob@x.com'', confidence = 9 / 10\<rparr>],
           originalText = ''my name is Bob and my email is bob@x.com''\<rparr>"
  using bob_trim
  by (simp add: pipeline_def processVoiceInput_def PATCH_def configured_def bob_no_submit
      bob_regex_submit bob_regex_fields)

text \<open>
  Claim C1, as stated, fails.  With the component's AI switch off the understanding of
  the utterance is not the claimed one, and neither is it when the switch is on and the
  endpoint, having no API key, answers from its regular expressions.
\<close>

theorem bob_understanding_counterexample:
  "pipeline False True \<lparr>apiKey = None, gateClock = 0, replyClock = 0, mathRandom = 0\<rparr>
     FetchThrows rateLimitState ''my name is Bob and my email is bob@x.com'' \<noteq>
     Some \<lparr>intent = Provide_info,
           detectedFields = [\<lparr>field = Name, val = ''Bob'', confidence = 8 / 10\<rparr>,
                             \<lparr>field = Email, val = ''bob@x.com'', confidence = 9 / 10\<rparr>],
           originalText = ''my name is Bob and my email is bob@x.com''\<rparr> \<and>
   pipeline True True \<lparr>apiKey = None, gateClock = 0, replyClock = 0, mathRandom = 0\<rparr>
     FetchThrows rateLimitState ''my name is Bob and my email is bob@x.com'' \<noteq>
     Some \<lparr>intent = Provide_info,
           detectedFields = [\<lparr>field = Name, val = ''Bob'', confidence = 8 / 10\<rparr>,
                             \<lparr>field = Email, val = ''bob@x.com'', confidence = 9 / 10\<rparr>],
           originalText = ''my name is Bob and my email is bob@x.com''\<rparr>"
  by (simp add: bob_ai_off bob_no_key)

text \<open>
  Claim C1, amended.  With the AI switch off the component never extracts fields: the
  understanding has intent unknown and no detected fields, whatever the server would do.
  With the switch on and no API key on the server, the understanding has intent
  provide_info with the name field \<open>Bob and my email is bob@x\<close> (the capture runs to the
  next punctuation mark) at confidence 0.8 and the email field \<open>bob@x.com\<close> at 0.9.
\<close>

theorem bob_understanding:
  "pipeline False delivered env reply s ''my name is Bob and my email is bob@x.com'' =
     Some \<lparr>intent = Unknown, detectedFields = [],
           originalText = ''my name is Bob and my email is bob@x.com''\<rparr> \<and>
   pipeline True True \<lparr>apiKey = None, gateClock = t1, replyClock = t2, mathRandom = r\<rparr> reply' s'
     ''my name is Bob and my email is bob@x.com'' =
     Some \<lparr>intent = Provide_info,
           detectedFields =
             [\<lparr>field = Name, val = ''Bob and my email is bob@x'', confidence = 8 / 10\<rparr>,
              \<lparr>field = Email, val = ''bob@x.com'', confidence = 9 / 10\<rparr>],
           originalText = ''my name is Bob and my email is bob@x.com''\<rparr>"
  by (simp only: bob_ai_off bob_no_key simp_thms)

section \<open>The name extractors on the greeting\<close>

lemma jane_cleaning:
  "basicTextCleaning ''hi, i'm called Jane Doe'' ''name'' = ''hi, i'm called Jane Doe''"
  by code_simp

lemma jane_regex:
  "map_option entry_value (entries (processWithRegex ''hi, i'm called Jane Doe'') Name) =
     Some ''called Jane Doe''"
  by code_simp

text \<open>
  Claim C6, as stated, fails: neither the name cleaning of \<open>basicTextCleaning\<close> nor the
  name pattern of \<open>processWithRegex\<close> returns \<open>Jane Doe\<close> on the greeting.
\<close>

theorem jane_name_counterexample:
  "basicTextCleaning ''hi, i'm called Jane Doe'' ''name'' \<noteq> ''Jane Doe'' \<and>
   map_option entry_value (entries (processWithRegex ''hi, i'm called Jane Doe'') Name) \<noteq>
     Some ''Jane Doe''"
  by (simp add: jane_cleaning jane_regex)

text \<open>
  Claim C6, amended.  The name cleaning strips prefixes only at the very start of the
  text, so it returns the greeting unchanged; the name pattern of the regex analysis
  matches at \<open>i'm\<close> and captures \<open>called Jane Doe\<close>.
\<close>

theorem jane_name:
  "basicTextCleaning ''hi, i'm called Jane Doe'' ''name'' = ''hi, i'm called Jane Doe'' \<and>
   map_option entry_value (entries (processWithRegex ''hi, i'm called Jane Doe'') Name) =
     Some ''called Jane Doe''"
  by (simp only: jane_cleaning jane_regex simp_thms)

section \<open>Device errors\<close>

text \<open>
  Claim C9, as stated, fails: a listening session that receives \<open>no-speech\<close> (or
  \<open>network\<close>) is no longer listening afterwards.
\<close>

theorem onerror_keeps_listening_counterexample:
  "listening (onerror ''no-speech'' \<lparr>listening = True, error = []\<rparr>) \<noteq>
     listening \<lparr>listening = True, error = []\<rparr> \<and>
   listening (onerror ''network'' \<lparr>listening = True, error = []\<rparr>) \<noteq>
     listening \<lparr>listening = True, error = []\<rparr>"
  by (simp add: onerror_def)

text \<open>
  Claim C9, amended.  On \<open>no-speech\<close> and on \<open>network\<close> the error is reported to the user
  and the listening flag is set to false; \<open>aborted\<close> is the only error kind that leaves
  the flag as it is.
\<close>

theorem onerror_stops_listening:
  "onerror ''no-speech'' st =
     \<lparr>listening = False, error = ''No speech detected. Please try speaking again.''\<rparr> \<and>
   onerror ''network'' st =
     \<lparr>listening = False,
      error = ''Network error. Check your internet connection and try again.''\<rparr> \<and>
   listening (onerror e st) = (if e = ''aborted'' then listening st else False)"
  by (simp add: onerror_def Let_def)

theorem onerror_stops_listening_witness:
  "onerror ''no-speech'' \<lparr>listening = True, error = ''earlier''\<rparr> =
     \<lparr>listening = False, error = ''No speech detected. Please try speaking again.''\<rparr> \<and>
   onerror ''network'' \<lparr>listening = True, error = ''earlier''\<rparr> =
     \<lparr>listening = False,
      error = ''Network error. Check your internet connection and try again.''\<rparr> \<and>
   listening (onerror ''aborted'' \<lparr>listening = True, error = ''earlier''\<rparr>) = True"
  using onerror_stops_listening [where st = "\<lparr>listening = True, error = ''earlier''\<rparr>"
      and e = "''aborted''"]
  by simp

section \<open>Submitting an empty form by voice\<close>

text \<open>
  Claim C10.  When a submit intent is handled while the four inputs are empty or hold
  only white space (or are missing), nothing is stored, no navigation is scheduled, the
  form state (data, field errors, active field) and the inputs stay as they were, and the
  message asks for information before submitting.
\<close>

theorem submit_empty_form:
  assumes "intent u = Submit"
    and "trim (input_value p ''name'') = []" and "trim (input_value p ''email'') = []"
    and "trim (input_value p ''phone'') = []" and "trim (input_value p ''address'') = []"
  shows "localStorage (handleVoiceInput storageThrows u p) = localStorage p \<and>
    timers (handleVoiceInput storageThrows u p) = timers p \<and>
    formData (handleVoiceInput storageThrows u p) = formData p \<and>
    formErrors (handleVoiceInput storageThrows u p) = formErrors p \<and>
    activeField (handleVoiceInput storageThrows u p) = activeField p \<and>
    inputs (handleVoiceInput storageThrows u p) = inputs p \<and>
    message (handleVoiceInput storageThrows u p) =
      ''Please provide some information before submitting.''"
  using assms by (simp add: handleVoiceInput_def Let_def)

lemma blank_inputs:
  "trim [] = []" "trim ''   '' = []"
  by code_simp+

theorem submit_empty_form_witness:
  "handleVoiceInput False \<lparr>intent = Submit, detectedFields = [], originalText = ''submit''\<rparr>
     \<lparr>formData = \<lparr>name = ''Ann'', email = [], phone = [], address = []\<rparr>,
      formErrors = (\<lambda>f. None), activeField = Some Name, message = ''earlier'',
      lastSpeech = ''my name is Ann'',
      inputs = (\<lambda>i. if i = ''name'' then Some ''   '' else if i = ''email'' then Some [] else None),
      localStorage = (\<lambda>k. None), timers = []\<rparr> =
     \<lparr>formData = \<lparr>name = ''Ann'', email = [], phone = [], address = []\<rparr>,
      formErrors = (\<lambda>f. None), activeField = Some Name,
      message = ''Please provide some information before submitting.'',
      lastSpeech = ''submit'',
      inputs = (\<lambda>i. if i = ''name'' then Some ''   '' else if i = ''email'' then Some [] else None),
      localStorage = (\<lambda>k. None), timers = []\<rparr>"
  using submit_empty_form [where storageThrows = False
      and u = "\<lparr>intent = Submit, detectedFields = [], originalText = ''submit''\<rparr>"
      and p = "\<lparr>formData = \<lparr>name = ''Ann'', email = [], phone = [], address = []\<rparr>,
      formErrors = (\<lambda>f. None), activeField = Some Name, message = ''earlier'',
      lastSpeech = ''my name is Ann'',
      inputs = (\<lambda>i. if i = ''name'' then Some ''   '' else if i = ''email'' then Some [] else None),
      localStorage = (\<lambda>k. None), timers = []\<rparr>"]
  by (simp add: handleVoiceInput_def Let_def input_value_def blank_inputs)

section \<open>Remote failures and the rate limiting state\<close>

lemma gate_open_state:
  "isRateLimited now s = (False, s1) \<Longrightarrow>
   lastRequestTime s1 = lastRequestTime s \<and> consecutiveErrors s1 = consecutiveErrors s \<and>
   backoffMs s1 = backoffMs s \<and> inCooldown s1 = False"
  by (auto simp: isRateLimited_def split: if_splits)

lemma success_counter: "consecutiveErrors (handleSuccessfulRequest now s) \<noteq> consecutiveErrors s + 1"
  by (simp add: handleSuccessfulRequest_def Let_def)

lemma failure_counter: "consecutiveErrors (handleRateLimit r now s) = consecutiveErrors s + 1"
  by (simp add: handleRateLimit_def Let_def)

lemma not_ok_429: "\<not> status_ok 429"
  by (simp add: status_ok_def)

lemma PATCH_remote:
  assumes "text \<noteq> []" "\<not> rx_test True submitPattern text" "configured env"
    and "isRateLimited (gateClock env) s = (False, s1)"
  shows "PATCH env reply (Some (Some text)) s =
     (case reply of
        FetchThrows \<Rightarrow> (OkJson (processWithRegex text), s1)
      | HttpReply status b \<Rightarrow>
          if status = 429
          then (OkJson (processWithRegex text), handleRateLimit (mathRandom env) (replyClock env) s1)
          else if \<not> status_ok status then (OkJson (processWithRegex text), s1)
          else (case b of
                  CandidateText (Some parsedResult) \<Rightarrow> OkJson (parsedResult\<lparr>fromAI := True\<rparr>)
                | _ \<Rightarrow> OkJson (processWithRegex text),
                handleSuccessfulRequest (replyClock env) s1))"
  using assms
  by (simp add: PATCH_def Let_def not_ok_429 split: remote_reply.split remote_body.split option.split)

lemma POST_remote:
  assumes "text \<noteq> []" "fld \<in> set [''name'', ''email'', ''phone'', ''address'']" "configured env"
    and "isRateLimited (gateClock env) s = (False, s1)"
  shows "POST env reply (Some (Some text, Some fld)) s =
     (case reply of
        FetchThrows \<Rightarrow> (OkJson (basicTextCleaning text fld, False), s1)
      | HttpReply status b \<Rightarrow>
          if status = 429
          then (OkJson (basicTextCleaning text fld, False),
                handleRateLimit (mathRandom env) (replyClock env) s1)
          else if \<not> status_ok status then (OkJson (basicTextCleaning text fld, False), s1)
          else (case b of
                  CandidateText t \<Rightarrow>
                    if t \<noteq> [] \<and> trim t \<noteq> [] then OkJson (trim t, True)
                    else OkJson (basicTextCleaning text fld, False)
                | _ \<Rightarrow> OkJson (basicTextCleaning text fld, False),
                handleSuccessfulRequest (replyClock env) s1))"
  using assms
  by (simp add: POST_def Let_def not_ok_429 split: remote_reply.split remote_body.split)

text \<open>
  Claim C8.  Take a request for which the remote call is made: the API key is configured,
  the \<open>isRateLimited\<close> check answers false and leaves the state \<open>s1\<close> (which differs
  from the state before the request at most by a cleared \<open>inCooldown\<close> flag), and the
  input is valid (for \<open>PATCH\<close>: a text without a submit word, since a submit word is
  answered before any remote call; for \<open>POST\<close>: any non-empty text with one of the four
  field names).  If the call fails with a transport error or with a non-success status
  other than 429, the endpoint answers with the deterministic fallback and leaves the
  state exactly \<open>s1\<close>; and the state after the request is the one \<open>handleRateLimit\<close>
  produces, with the error counter one higher, exactly when the status is 429.
\<close>

theorem transient_failure_keeps_state:
  assumes "configured env"
    and "isRateLimited (gateClock env) s = (False, s1)"
  shows "(input \<noteq> [] \<and> \<not> rx_test True submitPattern input \<longrightarrow>
            (transient_failure reply \<longrightarrow>
               PATCH env reply (Some (Some input)) s = (OkJson (processWithRegex input), s1)) \<and>
            ((\<exists>b. reply = HttpReply 429 b) \<longrightarrow>
               snd (PATCH env reply (Some (Some input)) s) =
                 handleRateLimit (mathRandom env) (replyClock env) s1) \<and>
            (consecutiveErrors (snd (PATCH env reply (Some (Some input)) s))
               = consecutiveErrors s + 1 \<longleftrightarrow> (\<exists>b. reply = HttpReply 429 b))) \<and>
         (posted \<noteq> [] \<and> fld \<in> set [''name'', ''email'', ''phone'', ''address''] \<longrightarrow>
            (transient_failure reply' \<longrightarrow>
               POST env reply' (Some (Some posted, Some fld)) s =
                 (OkJson (basicTextCleaning posted fld, False), s1)) \<and>
            ((\<exists>b. reply' = HttpReply 429 b) \<longrightarrow>
               snd (POST env reply' (Some (Some posted, Some fld)) s) =
                 handleRateLimit (mathRandom env) (replyClock env) s1) \<and>
            (consecutiveErrors (snd (POST env reply' (Some (Some posted, Some fld)) s))
               = consecutiveErrors s + 1 \<longleftrightarrow> (\<exists>b. reply' = HttpReply 429 b))) \<and>
         lastRequestTime s1 = lastRequestTime s \<and> consecutiveErrors s1 = consecutiveErrors s \<and>
         backoffMs s1 = backoffMs s \<and> inCooldown s1 = False"
proof -
  note g = gate_open_state [OF assms(2)]
  have c: "consecutiveErrors s = consecutiveErrors s1"
    using g by simp
  have patch: "(transient_failure reply \<longrightarrow>
        PATCH env reply (Some (Some input)) s = (OkJson (processWithRegex input), s1)) \<and>
      ((\<exists>b. reply = HttpReply 429 b) \<longrightarrow>
        snd (PATCH env reply (Some (Some input)) s) =
          handleRateLimit (mathRandom env) (replyClock env) s1) \<and>
      (consecutiveErrors (snd (PATCH env reply (Some (Some input)) s))
        = consecutiveErrors s + 1 \<longleftrightarrow> (\<exists>b. reply = HttpReply 429 b))"
    if valid: "input \<noteq> []" "\<not> rx_test True submitPattern input"
  proof -
    note P = PATCH_remote [OF valid assms]
    have 1: "transient_failure reply \<longrightarrow>
        PATCH env reply (Some (Some input)) s = (OkJson (processWithRegex input), s1)"
      by (simp add: P transient_failure_def split: remote_reply.split)
    have 2: "(\<exists>b. reply = HttpReply 429 b) \<longrightarrow>
        snd (PATCH env reply (Some (Some input)) s) =
          handleRateLimit (mathRandom env) (replyClock env) s1"
      by (auto simp: P)
    have 3: "consecutiveErrors (snd (PATCH env reply (Some (Some input)) s))
        = consecutiveErrors s + 1 \<longleftrightarrow> (\<exists>b. reply = HttpReply 429 b)"
      unfolding c by (cases reply) (simp_all add: P failure_counter success_counter)
    from 1 2 3 show ?thesis by blast
  qed
  have post: "(transient_failure reply' \<longrightarrow>
        POST env reply' (Some (Some posted, Some fld)) s =
          (OkJson (basicTextCleaning posted fld, False), s1)) \<and>
      ((\<exists>b. reply' = HttpReply 429 b) \<longrightarrow>
        snd (POST env reply' (Some (Some posted, Some fld)) s) =
          handleRateLimit (mathRandom env) (replyClock env) s1) \<and>
      (consecutiveErrors (snd (POST env reply' (Some (Some posted, Some fld)) s))
        = consecutiveErrors s + 1 \<longleftrightarrow> (\<exists>b. reply' = HttpReply 429 b))"
    if valid: "posted \<noteq> []" "fld \<in> set [''name'', ''email'', ''phone'', ''address'']"
  proof -
    note Q = POST_remote [OF valid assms]
    have 1: "transient_failure reply' \<longrightarrow>
        POST env reply' (Some (Some posted, Some fld)) s =
          (OkJson (basicTextCleaning posted fld, False), s1)"
      by (simp add: Q transient_failure_def split: remote_reply.split)
    have 2: "(\<exists>b. reply' = HttpReply 429 b) \<longrightarrow>
        snd (POST env reply' (Some (Some posted, Some fld)) s) =
          handleRateLimit (mathRandom env) (replyClock env) s1"
      by (auto simp: Q)
    have 3: "consecutiveErrors (snd (POST env reply' (Some (Some posted, Some fld)) s))
        = consecutiveErrors s + 1 \<longleftrightarrow> (\<exists>b. reply' = HttpReply 429 b)"
      unfolding c by (cases reply') (simp_all add: Q failure_counter success_counter)
    from 1 2 3 show ?thesis by blast
  qed
  from patch post g show ?thesis by blast
qed

lemma hello_no_submit: "\<not> rx_test True submitPattern ''my phone is 555''"
  by code_simp

lemma mail_has_submit_word: "rx_test True submitPattern ''send it to bob@example.com''"
  by code_simp

lemma mail_cleaning:
  "basicTextCleaning ''send it to bob@example.com'' ''email'' = ''bob@example.com''"
  by code_simp

theorem transient_failure_keeps_state_witness:
  "configured \<lparr>apiKey = Some ''k'', gateClock = 5000, replyClock = 5200, mathRandom = 1 / 2\<rparr> \<and>
   isRateLimited 5000 \<lparr>lastRequestTime = 100, consecutiveErrors = 1, backoffMs = 2000,
       inCooldown = True\<rparr> =
     (False, \<lparr>lastRequestTime = 100, consecutiveErrors = 1, backoffMs = 2000,
       inCooldown = False\<rparr>) \<and>
   ''my phone is 555'' \<noteq> [] \<and>
   \<not> rx_test True submitPattern ''my phone is 555'' \<and>
   transient_failure (HttpReply 503 BodyUnreadable :: Analysis option remote_reply) \<and>
   snd (PATCH \<lparr>apiKey = Some ''k'', gateClock = 5000, replyClock = 5200, mathRandom = 1 / 2\<rparr>
       (HttpReply 503 BodyUnreadable) (Some (Some ''my phone is 555''))
       \<lparr>lastRequestTime = 100, consecutiveErrors = 1, backoffMs = 2000, inCooldown = True\<rparr>) =
     \<lparr>lastRequestTime = 100, consecutiveErrors = 1, backoffMs = 2000, inCooldown = False\<rparr> \<and>
   ''send it to bob@example.com'' \<noteq> [] \<and>
   ''email'' \<in> set [''name'', ''email'', ''phone'', ''address''] \<and>
   rx_test True submitPattern ''send it to bob@example.com'' \<and>
   transient_failure (FetchThrows :: string remote_reply) \<and>
   POST \<lparr>apiKey = Some ''k'', gateClock = 5000, replyClock = 5200, mathRandom = 1 / 2\<rparr>
       FetchThrows (Some (Some ''send it to bob@example.com'', Some ''email''))
       \<lparr>lastRequestTime = 100, consecutiveErrors = 1, backoffMs = 2000, inCooldown = True\<rparr> =
     (OkJson (''bob@example.com'', False),
      \<lparr>lastRequestTime = 100, consecutiveErrors = 1, backoffMs = 2000, inCooldown = False\<rparr>)"
  using transient_failure_keeps_state [where input = "''my phone is 555''"
      and posted = "''send it to bob@example.com''"
      and env = "\<lparr>apiKey = Some ''k'', gateClock = 5000, replyClock = 5200, mathRandom = 1 / 2\<rparr>"
      and s = "\<lparr>lastRequestTime = 100, consecutiveErrors = 1, backoffMs = 2000, inCooldown = True\<rparr>"
      and ?s1.0 = "\<lparr>lastRequestTime = 100, consecutiveErrors = 1, backoffMs = 2000,
        inCooldown = False\<rparr>"
      and fld = "''email''"
      and reply = "HttpReply 503 BodyUnreadable" and reply' = FetchThrows]
    hello_no_submit mail_has_submit_word
  by (simp add: configured_def isRateLimited_def transient_failure_def status_ok_def mail_cleaning)

section \<open>The field extractors when nothing applies\<close>

text \<open>Two runs of the extractors on inputs where a pattern does apply.\<close>

lemma cleaning_email_example:
  "basicTextCleaning ''you can reach me at john@example.com'' ''email'' = ''john@example.com''"
  by code_simp

lemma cleaning_phone_example:
  "basicTextCleaning ''my phone number is 555-123-4567'' ''phone'' = ''555-123-4567''"
  by code_simp

lemma dropWhile_self: "xs = [] \<or> \<not> P (hd xs) \<Longrightarrow> dropWhile P xs = xs"
  by (cases xs) auto

lemma hd_rev_dropWhile_rev:
  "rev (dropWhile P (rev xs)) \<noteq> [] \<Longrightarrow> hd (rev (dropWhile P (rev xs))) = hd xs"
proof (induction xs rule: rev_induct)
  case Nil
  then show ?case by simp
next
  case (snoc x xs)
  then show ?case by (cases "xs = []") (auto split: if_splits)
qed

lemma trim_no_leading: "trim s = [] \<or> \<not> is_space (hd (trim s))"
proof (cases "trim s = []")
  case True
  then show ?thesis by simp
next
  case False
  then have "hd (trim s) = hd (dropWhile is_space s)"
    unfolding trim_def by (rule hd_rev_dropWhile_rev)
  moreover have "dropWhile is_space s \<noteq> []"
  proof
    assume a: "dropWhile is_space s = []"
    have "trim s = []" unfolding trim_def a by simp
    with False show False by simp
  qed
  ultimately show ?thesis
    using hd_dropWhile [of is_space s] by simp
qed

lemma trim_idem: "trim (trim s) = trim s"
proof -
  have "dropWhile is_space (trim s) = trim s"
    using trim_no_leading [of s] by (rule dropWhile_self)
  then show ?thesis
    by (simp add: trim_def)
qed

lemma rx_exec_None: "rx_exec ci re t = None \<longleftrightarrow> \<not> rx_test ci re t"
  by (auto simp: rx_exec_def rx_test_def split: option.splits)

lemma rx_remove_none: "\<not> rx_test ci re t \<Longrightarrow> rx_remove ci re t = t"
  by (simp add: rx_remove_def rx_exec_None [symmetric])

lemma letters_no_pattern: "no_pattern_applies ''hello'' ''phone''"
  by code_simp

lemma letters_cleaned: "basicTextCleaning ''hello'' ''phone'' = []"
  by code_simp

lemma letters_trim: "trim ''hello'' = ''hello''"
  by code_simp

text \<open>
  Claim C7, as stated, fails for the phone extractor: on \<open>hello\<close> no phone shape and no
  prefix applies, yet the result is the empty string, not the trimmed text.
\<close>

theorem cleaning_returns_trimmed_counterexample:
  "no_pattern_applies ''hello'' ''phone'' \<and>
   basicTextCleaning ''hello'' ''phone'' \<noteq> trim ''hello''"
  by (simp add: letters_no_pattern letters_cleaned letters_trim)

text \<open>
  Claim C7, amended.  Each of the four extractors is a total function (of the model as of
  the source: no operation on the string can fail).  When no field pattern matches and
  no prefix applies, the name, email and address extractors return the original text
  trimmed and otherwise unmodified; the phone extractor returns the trimmed text with
  every character deleted that is not a digit, white space or one of \<open>-+().\<close>
\<close>

theorem cleaning_returns_trimmed:
  "no_pattern_applies input fld \<Longrightarrow> fld \<in> set [''name'', ''email'', ''phone'', ''address''] \<Longrightarrow>
   basicTextCleaning input fld =
     (if fld = ''phone'' then filter phone_char (trim input) else trim input)"
proof -
  assume np: "no_pattern_applies input fld"
    and fld: "fld \<in> set [''name'', ''email'', ''phone'', ''address'']"
  from fld consider "fld = ''name''" | "fld = ''email''" | "fld = ''phone''" | "fld = ''address''"
    by auto
  then show ?thesis
  proof cases
    case 1
    with np have "\<not> rx_test True name_prefixes1 (trim input)"
      and "\<not> rx_test True name_prefixes2 (trim input)"
      by (simp_all add: no_pattern_applies_def Let_def)
    then show ?thesis
      by (simp add: 1 basicTextCleaning_def Let_def rx_remove_none trim_idem)
  next
    case 2
    with np have "rx_exec False emailMatch_pattern (trim input) = None"
      and "\<not> rx_test True email_prefixes1 (trim input)"
      and "\<not> rx_test True email_prefixes2 (trim input)"
      by (simp_all add: no_pattern_applies_def Let_def rx_exec_None)
    then show ?thesis
      by (simp add: 2 basicTextCleaning_def Let_def rx_remove_none trim_idem)
  next
    case 3
    with np have "rx_exec False directMatch_pattern (trim input) = None"
      and "\<not> rx_test True phone_prefixes1 (trim input)"
      and "\<not> rx_test True phone_prefixes2 (trim input)"
      by (simp_all add: no_pattern_applies_def Let_def rx_exec_None)
    then show ?thesis
      by (simp add: 3 basicTextCleaning_def Let_def rx_remove_none trim_idem)
  next
    case 4
    with np have "\<not> rx_test True address_prefixes1 (trim input)"
      and "\<not> rx_test True address_prefixes2 (trim input)"
      by (simp_all add: no_pattern_applies_def Let_def)
    then show ?thesis
      by (simp add: 4 basicTextCleaning_def Let_def rx_remove_none trim_idem)
  qed
qed

lemma street_no_pattern: "no_pattern_applies ''  12 Main Street '' ''address''"
  by code_simp

lemma street_trim: "trim ''  12 Main Street '' = ''12 Main Street''"
  by code_simp

theorem cleaning_returns_trimmed_witness:
  "no_pattern_applies ''  12 Main Street '' ''address'' \<and>
   ''address'' \<in> set [''name'', ''email'', ''phone'', ''address''] \<and>
   basicTextCleaning ''  12 Main Street '' ''address'' = ''12 Main Street''"
  using cleaning_returns_trimmed [where input = "''  12 Main Street ''" and fld = "''address''"]
    street_no_pattern
  by (simp add: street_trim)

section \<open>Whole-word submit commands\<close>

subsection \<open>Characters\<close>

lemma code_canonicalize:
  "(of_char (canonicalize c) :: nat) =
     (if 97 \<le> (of_char c :: nat) \<and> (of_char c :: nat) \<le> 122 then of_char c - 32 else of_char c)"
  by (auto simp: canonicalize_def Let_def)

lemma code_toLowerChar:
  "(of_char (toLowerChar c) :: nat) =
     (if (65 \<le> (of_char c :: nat) \<and> (of_char c :: nat) \<le> 90) \<or>
         (192 \<le> (of_char c :: nat) \<and> (of_char c :: nat) \<le> 222 \<and> (of_char c :: nat) \<noteq> 215)
      then of_char c + 32 else of_char c)"
  by (auto simp: toLowerChar_def Let_def)

lemma canonicalize_eq_iff:
  "canonicalize x = canonicalize c \<longleftrightarrow>
     (of_char (canonicalize x) :: nat) = of_char (canonicalize c)"
  by simp

lemma folds_to_lower_alpha:
  assumes "is_lower c" "canonicalize x = canonicalize c"
  shows "is_alpha x"
  using assms unfolding canonicalize_eq_iff code_canonicalize
  by (auto simp: is_lower_def is_alpha_def Let_def split: if_splits)

lemma folds_to_lower_toLowerChar:
  assumes "is_lower c" "canonicalize x = canonicalize c"
  shows "canonicalize (toLowerChar x) = canonicalize c"
  using assms unfolding canonicalize_eq_iff code_canonicalize code_toLowerChar
  by (auto simp: is_lower_def Let_def split: if_splits)

lemma underscore_code: "(c = CHR ''_'') = ((of_char c :: nat) = 95)"
proof -
  have "(c = CHR ''_'') = ((of_char c :: nat) = of_char (CHR ''_''))"
    by (simp only: of_char_eq_iff)
  then show ?thesis by simp
qed

lemma is_word_toLowerChar: "is_word (toLowerChar c) = is_word c"
  unfolding is_word_def is_alpha_def is_digit_def underscore_code Let_def code_toLowerChar
  by auto

lemma alpha_not_space: "is_alpha c \<Longrightarrow> \<not> is_space c"
  by (auto simp: is_alpha_def is_space_def Let_def)

lemma alpha_word: "is_alpha c \<Longrightarrow> is_word c"
  by (simp add: is_word_def)


subsection \<open>The matcher on a word pattern\<close>

lemma ci_prefix_Nil: "ci_prefix [] r"
  by (simp add: ci_prefix_def)

lemma ci_prefix_Cons_Nil: "\<not> ci_prefix (c # cs) []"
  by (simp add: ci_prefix_def)

lemma ci_prefix_Cons_Cons:
  "ci_prefix (c # cs) (x # xs) \<longleftrightarrow> canonicalize x = canonicalize c \<and> ci_prefix cs xs"
  by (auto simp: ci_prefix_def)

lemma rx_m_Str:
  "rx_m True (Str w) (b, r, g) =
     (if ci_prefix w r then [(rev (take (length w) r) @ b, drop (length w) r, g)] else [])"
proof (induction w arbitrary: b r)
  case Nil
  then show ?case by (simp add: ci_prefix_Nil)
next
  case (Cons c cs)
  show ?case
  proof (cases r)
    case Nil
    then show ?thesis by (simp add: ci_prefix_Cons_Nil)
  next
    case (Cons x xs)
    then show ?thesis
      by (simp add: Cons.IH ci_prefix_Cons_Cons)
  qed
qed

lemma rx_m_Alts_Cons: "rx_m ci (Alts (a # as)) s = rx_m ci a s @ rx_m ci (Alts as) s"
proof (cases as)
  case Nil
  obtain b r g where "s = (b, r, g)" by (cases s)
  with Nil show ?thesis by (simp split: list.split)
next
  case (Cons a' as')
  then show ?thesis by simp
qed

lemma set_rx_m_Alts_Str:
  "set (rx_m True (Alts (map Str ws)) (b, r, g)) =
     (\<lambda>w. (rev (take (length w) r) @ b, drop (length w) r, g)) ` {w \<in> set ws. ci_prefix w r}"
proof (induction ws)
  case Nil
  then show ?case by (simp split: list.split)
next
  case (Cons w ws)
  have "set (rx_m True (Alts (map Str (w # ws))) (b, r, g)) =
      set (rx_m True (Str w) (b, r, g)) \<union> set (rx_m True (Alts (map Str ws)) (b, r, g))"
    by (simp only: list.map rx_m_Alts_Cons set_append)
  then show ?case
    unfolding Cons.IH rx_m_Str by auto
qed

lemma rx_m_word_pattern:
  "rx_m True (word_pattern ws) (b, r, None) \<noteq> [] \<longleftrightarrow> word_at ws b r"
proof -
  let ?A = "Alts (map Str ws)"
  have "rx_m True (word_pattern ws) (b, r, None) =
      (if word_boundary b r then rx_m True (Seq (Grp ?A) Wordb) (b, r, None) else [])"
    by (simp add: word_pattern_def)
  moreover have "rx_m True (Seq (Grp ?A) Wordb) (b, r, None) \<noteq> [] \<longleftrightarrow>
      (\<exists>s \<in> set (rx_m True ?A (b, r, None)). word_boundary (fst s) (fst (snd s)))"
    by (auto simp: split_def)
  ultimately show ?thesis
    unfolding set_rx_m_Alts_Str word_at_def by auto
qed

lemma rx_scan_Some:
  "rx_scan ci re b r \<noteq> None \<longleftrightarrow>
     (\<exists>front rest. r = front @ rest \<and> rx_m ci re (rev front @ b, rest, None) \<noteq> [])"
proof (induction r arbitrary: b)
  case Nil
  then show ?case by (simp split: list.split)
next
  case (Cons x xs)
  show ?case
  proof (cases "rx_m ci re (b, x # xs, None)")
    case (Cons s ss)
    then have "x # xs = [] @ (x # xs) \<and> rx_m ci re (rev [] @ b, x # xs, None) \<noteq> []"
      by simp
    then have "\<exists>front rest. x # xs = front @ rest \<and> rx_m ci re (rev front @ b, rest, None) \<noteq> []"
      by blast
    with Cons show ?thesis by simp
  next
    case Nil
    have "(\<exists>front rest. x # xs = front @ rest \<and> rx_m ci re (rev front @ b, rest, None) \<noteq> []) \<longleftrightarrow>
        (\<exists>front rest. xs = front @ rest \<and> rx_m ci re (rev front @ x # b, rest, None) \<noteq> [])"
      (is "?L \<longleftrightarrow> ?R")
    proof
      assume ?L
      then obtain front rest where f: "x # xs = front @ rest"
        and m: "rx_m ci re (rev front @ b, rest, None) \<noteq> []" by blast
      from m Nil f have "front \<noteq> []" by (cases front) auto
      then obtain front' where "front = x # front'" using f by (cases front) auto
      with f m show ?R by auto
    next
      assume ?R
      then obtain front rest where "xs = front @ rest"
        and "rx_m ci re (rev front @ x # b, rest, None) \<noteq> []" by blast
      then have "x # xs = (x # front) @ rest \<and> rx_m ci re (rev (x # front) @ b, rest, None) \<noteq> []"
        by simp
      then show ?L by blast
    qed
    with Nil Cons.IH [of "x # b"] show ?thesis by simp
  qed
qed

lemma rx_test_word_pattern: "rx_test True (word_pattern ws) s \<longleftrightarrow> has_word ws s"
  unfolding rx_test_def rx_scan_Some has_word_def rx_m_word_pattern by simp


subsection \<open>Whole words under lower-casing and trimming\<close>

lemma wordy_Cons: "wordy (x # xs) = is_word x"
  by (simp add: wordy_def)

lemma wordy_Nil: "\<not> wordy []"
  by (simp add: wordy_def)

lemma wordy_append: "m \<noteq> [] \<Longrightarrow> wordy (m @ r) = is_word (hd m)"
  by (cases m) (simp_all add: wordy_def)

lemma wordy_rev_append: "m \<noteq> [] \<Longrightarrow> wordy (rev m @ b) = is_word (last m)"
  by (induction m rule: rev_induct) (simp_all add: wordy_def)

lemma wordy_map_toLowerChar: "wordy (map toLowerChar xs) = wordy xs"
  by (cases xs) (simp_all add: wordy_def is_word_toLowerChar)

lemma folded_alpha:
  "list_all is_lower w \<Longrightarrow> map canonicalize m = map canonicalize w \<Longrightarrow> list_all is_alpha m"
proof (induction w arbitrary: m)
  case Nil
  then show ?case by simp
next
  case (Cons c cs)
  then obtain x xs where m: "m = x # xs" by (cases m) auto
  with Cons.prems have "canonicalize x = canonicalize c" "map canonicalize xs = map canonicalize cs"
    and "is_lower c" "list_all is_lower cs" by simp_all
  with Cons.IH [of xs] show ?case
    by (simp add: m folds_to_lower_alpha)
qed

lemma folded_toLowerCase:
  "list_all is_lower w \<Longrightarrow> map canonicalize m = map canonicalize w \<Longrightarrow>
   map canonicalize (map toLowerChar m) = map canonicalize w"
proof (induction w arbitrary: m)
  case Nil
  then show ?case by simp
next
  case (Cons c cs)
  then obtain x xs where m: "m = x # xs" by (cases m) auto
  with Cons.prems have "canonicalize x = canonicalize c" "map canonicalize xs = map canonicalize cs"
    and "is_lower c" "list_all is_lower cs" by simp_all
  with Cons.IH [of xs] show ?case
    by (simp add: m folds_to_lower_toLowerChar)
qed

lemma word_at_occurs:
  assumes "lower_words ws"
  shows "word_at ws b r \<longleftrightarrow> (\<exists>w \<in> set ws. \<exists>m rest. r = m @ rest \<and> occurs w b m rest)"
proof
  assume "word_at ws b r"
  then obtain w where w: "w \<in> set ws" and p: "ci_prefix w r"
    and b1: "word_boundary b r"
    and b2: "word_boundary (rev (take (length w) r) @ b) (drop (length w) r)"
    by (auto simp: word_at_def)
  define m where "m = take (length w) r"
  define rest where "rest = drop (length w) r"
  have r: "r = m @ rest" by (simp add: m_def rest_def)
  from assms w have wl: "w \<noteq> []" "list_all is_lower w"
    by (auto simp: lower_words_def list_all_iff)
  from p have mw: "map canonicalize m = map canonicalize w" and len: "length w \<le> length r"
    by (simp_all add: ci_prefix_def m_def)
  from len wl have mne: "m \<noteq> []" by (auto simp: m_def)
  have al: "list_all is_alpha m" using wl(2) mw by (rule folded_alpha)
  from mne al have "is_word (hd m)" "is_word (last m)"
    by (auto simp: list_all_iff is_word_def)
  from b2 have b2': "word_boundary (rev m @ b) rest"
    by (simp only: m_def rest_def)
  from b1 have b1': "word_boundary b (m @ rest)"
    by (simp only: r [symmetric])
  from b1' b2' mne \<open>is_word (hd m)\<close> \<open>is_word (last m)\<close>
  have "\<not> wordy b" "\<not> wordy rest"
    by (simp_all add: word_boundary_def wordy_append hd_rev)
  with mne al mw have "occurs w b m rest" by (simp add: occurs_def)
  with w r show "\<exists>w \<in> set ws. \<exists>m rest. r = m @ rest \<and> occurs w b m rest" by blast
next
  assume "\<exists>w \<in> set ws. \<exists>m rest. r = m @ rest \<and> occurs w b m rest"
  then obtain w m rest where w: "w \<in> set ws" and r: "r = m @ rest" and o: "occurs w b m rest"
    by blast
  from o have mne: "m \<noteq> []" and al: "list_all is_alpha m"
    and mw: "map canonicalize m = map canonicalize w"
    and nb: "\<not> wordy b" "\<not> wordy rest"
    by (simp_all add: occurs_def)
  from mw have len: "length m = length w" by (rule map_eq_imp_length_eq)
  from mne al have iw: "is_word (hd m)" "is_word (last m)"
    by (auto simp: list_all_iff is_word_def)
  have "ci_prefix w r" using mw len by (simp add: ci_prefix_def r)
  moreover have "word_boundary b r"
    using nb iw mne by (simp add: word_boundary_def r wordy_append)
  moreover have "word_boundary (rev (take (length w) r) @ b) (drop (length w) r)"
    using nb iw mne len by (simp add: word_boundary_def r wordy_rev_append)
  ultimately show "word_at ws b r" using w by (auto simp: word_at_def)
qed

lemma has_word_nonempty: "lower_words ws \<Longrightarrow> has_word ws s \<Longrightarrow> s \<noteq> []"
  by (auto simp: has_word_def word_at_occurs occurs_def)

lemma has_word_mono: "set ws \<subseteq> set ws' \<Longrightarrow> has_word ws s \<Longrightarrow> has_word ws' s"
  unfolding has_word_def word_at_def by blast

lemma has_word_toLowerCase:
  assumes "lower_words ws" "has_word ws s"
  shows "has_word ws (toLowerCase s)"
proof -
  from assms obtain front w m rest where w: "w \<in> set ws" and s: "s = front @ m @ rest"
    and o: "occurs w (rev front) m rest"
    by (auto simp: has_word_def word_at_occurs)
  let ?l = "map toLowerChar"
  from assms(1) w have wl: "list_all is_lower w"
    by (auto simp: lower_words_def list_all_iff)
  from o have mw: "map canonicalize m = map canonicalize w" and mne: "m \<noteq> []"
    by (simp_all add: occurs_def)
  have c: "map canonicalize (?l m) = map canonicalize w"
    using wl mw by (rule folded_toLowerCase)
  have "list_all is_alpha (?l m)" using wl c by (rule folded_alpha)
  moreover have "wordy (rev (?l front)) = wordy (rev front)"
    using wordy_map_toLowerChar [of "rev front"] by (simp add: rev_map)
  then have "\<not> wordy (rev (?l front))" "\<not> wordy (?l rest)"
    using o by (simp_all add: occurs_def wordy_map_toLowerChar)
  ultimately have "occurs w (rev (?l front)) (?l m) (?l rest)"
    using mne c by (simp add: occurs_def)
  moreover have "toLowerCase s = ?l front @ ?l m @ ?l rest"
    by (simp add: toLowerCase_def s)
  ultimately show ?thesis
    using w assms(1) unfolding has_word_def word_at_occurs [OF assms(1)] by blast
qed

lemma dropWhile_before_word:
  assumes "m \<noteq> []" "\<not> P (hd m)"
  shows "dropWhile P (front @ m @ rest) = dropWhile P front @ m @ rest"
proof -
  from assms obtain x xs where "m = x # xs" "\<not> P x" by (cases m) auto
  then show ?thesis by (simp add: dropWhile_append3)
qed

lemma trim_around_word:
  assumes "m \<noteq> []" "\<not> is_space (hd m)" "\<not> is_space (last m)"
  shows "trim (front @ m @ rest) =
     dropWhile is_space front @ m @ rev (dropWhile is_space (rev rest))"
proof -
  have 1: "dropWhile is_space (front @ m @ rest) = dropWhile is_space front @ m @ rest"
    using assms(1,2) by (rule dropWhile_before_word)
  have "rev m \<noteq> []" "\<not> is_space (hd (rev m))"
    using assms by (simp_all add: hd_rev)
  then have 2: "dropWhile is_space (rev rest @ rev m @ rev (dropWhile is_space front)) =
      dropWhile is_space (rev rest) @ rev m @ rev (dropWhile is_space front)"
    by (rule dropWhile_before_word)
  show ?thesis
    unfolding trim_def 1 by (simp add: 2)
qed

lemma wordy_rev_dropWhile: "wordy (rev (dropWhile P xs)) \<Longrightarrow> wordy (rev xs)"
proof -
  assume a: "wordy (rev (dropWhile P xs))"
  then have ne: "dropWhile P xs \<noteq> []"
    using wordy_Nil by (auto simp del: dropWhile_eq_Nil_conv)
  then obtain x where "x \<in> set xs" "\<not> P x" by auto
  then have "last (dropWhile P xs) = last xs" by (rule dropWhile_last)
  moreover have "xs \<noteq> []" using ne by auto
  ultimately show ?thesis
    using a ne wordy_rev_append [of "dropWhile P xs" "[]"] wordy_rev_append [of xs "[]"]
    by simp
qed

lemma wordy_rev_dropWhile_rev: "wordy (rev (dropWhile P (rev xs))) \<Longrightarrow> wordy xs"
proof -
  assume a: "wordy (rev (dropWhile P (rev xs)))"
  then have ne: "rev (dropWhile P (rev xs)) \<noteq> []"
    using wordy_Nil by (auto simp del: dropWhile_eq_Nil_conv)
  then have "hd (rev (dropWhile P (rev xs))) = hd xs" by (rule hd_rev_dropWhile_rev)
  moreover have "xs \<noteq> []" using ne by auto
  ultimately show ?thesis
    using a ne wordy_append [of "rev (dropWhile P (rev xs))" "[]"] wordy_append [of xs "[]"]
    by simp
qed

lemma has_word_trim:
  assumes "lower_words ws" "has_word ws s"
  shows "has_word ws (trim s)"
proof -
  from assms obtain front w m rest where w: "w \<in> set ws" and s: "s = front @ m @ rest"
    and o: "occurs w (rev front) m rest"
    by (auto simp: has_word_def word_at_occurs)
  from o have mne: "m \<noteq> []" and al: "list_all is_alpha m"
    and nb: "\<not> wordy (rev front)" "\<not> wordy rest"
    by (simp_all add: occurs_def)
  from mne al have "is_alpha (hd m)" "is_alpha (last m)"
    by (auto simp: list_all_iff)
  then have "\<not> is_space (hd m)" "\<not> is_space (last m)"
    by (simp_all add: alpha_not_space)
  with mne have t: "trim s =
      dropWhile is_space front @ m @ rev (dropWhile is_space (rev rest))"
    unfolding s by (rule trim_around_word)
  from nb have "\<not> wordy (rev (dropWhile is_space front))"
    and "\<not> wordy (rev (dropWhile is_space (rev rest)))"
    using wordy_rev_dropWhile wordy_rev_dropWhile_rev by blast+
  with o have "occurs w (rev (dropWhile is_space front)) m (rev (dropWhile is_space (rev rest)))"
    by (simp add: occurs_def)
  with w t show ?thesis
    unfolding has_word_def word_at_occurs [OF assms(1)] by blast
qed


subsection \<open>The submit words through the pipeline\<close>

lemma lower_local_submit_words: "lower_words local_submit_words"
  by code_simp

lemma lower_submit_words: "lower_words submit_words"
  by code_simp

lemma local_submit_words_subset: "set local_submit_words \<subseteq> set submit_words"
  by (simp add: local_submit_words_def submit_words_def)

lemma analyzeVoiceInput_submit:
  assumes "has_word local_submit_words input"
  shows "analyzeVoiceInput input = \<lparr>intent = Submit, detectedFields = [], originalText = input\<rparr>"
proof -
  have "has_word local_submit_words (trim (toLowerCase input))"
    using lower_local_submit_words assms
    by (intro has_word_trim has_word_toLowerCase)
  then show ?thesis
    by (simp add: analyzeVoiceInput_def Let_def rx_test_word_pattern)
qed

lemma has_word_not_blank:
  assumes "lower_words ws" "has_word ws input"
  shows "input \<noteq> [] \<and> trim input \<noteq> []"
  using assms has_word_nonempty has_word_trim by blast

lemma PATCH_submit:
  assumes "has_word submit_words input"
  shows "PATCH env reply (Some (Some input)) s =
     (OkJson \<lparr>submit = Some \<lparr>submit_value = True, submit_confidence = Some (95 / 100)\<rparr>,
              entries = (\<lambda>f. None), fromAI = False\<rparr>, s)"
proof -
  from assms have "input \<noteq> []"
    using has_word_not_blank lower_submit_words by blast
  moreover from assms have "rx_test True submitPattern input"
    by (simp add: submitPattern_def rx_test_word_pattern)
  ultimately show ?thesis
    by (simp add: PATCH_def)
qed

lemma pipeline_local_submit:
  assumes "has_word local_submit_words input"
  shows "pipeline useAI delivered env reply s input =
     Some \<lparr>intent = Submit, detectedFields = [], originalText = input\<rparr>"
proof -
  from assms have nb: "input \<noteq> []" "trim input \<noteq> []"
    using has_word_not_blank lower_local_submit_words by blast+
  from assms have "has_word submit_words input"
    using local_submit_words_subset by (rule has_word_mono [rotated])
  note P = PATCH_submit [OF this]
  show ?thesis
    using nb by (simp add: pipeline_def processVoiceInput_def Let_def P
        analyzeVoiceInput_submit [OF assms])
qed

lemma pipeline_server_submit:
  assumes "has_word submit_words input"
  shows "pipeline True True env reply s input =
     Some \<lparr>intent = Submit, detectedFields = [], originalText = input\<rparr>"
proof -
  from assms have nb: "input \<noteq> []" "trim input \<noteq> []"
    using has_word_not_blank lower_submit_words by blast+
  show ?thesis
    using nb by (simp add: pipeline_def processVoiceInput_def Let_def PATCH_submit [OF assms])
qed

lemma finish_is_submit_word: "rx_test True submitPattern ''finish''"
  by code_simp

lemma finish_ai_off:
  "pipeline False True \<lparr>apiKey = None, gateClock = 0, replyClock = 0, mathRandom = 0\<rparr>
     FetchThrows rateLimitState ''finish'' =
     Some \<lparr>intent = Unknown, detectedFields = [], originalText = ''finish''\<rparr>"
  by code_simp

lemma finish_request_lost:
  "pipeline True False \<lparr>apiKey = None, gateClock = 0, replyClock = 0, mathRandom = 0\<rparr>
     FetchThrows rateLimitState ''finish'' =
     Some \<lparr>intent = Unknown, detectedFields = [], originalText = ''finish''\<rparr>"
  by code_simp

text \<open>
  Claim C2, as stated, fails: \<open>finish\<close> is one of the five words, but with the AI switch
  off, or with the request to the endpoint lost, the understanding is not a submit.
\<close>

theorem submit_word_understood_counterexample:
  "rx_test True submitPattern ''finish'' \<and>
   pipeline False True \<lparr>apiKey = None, gateClock = 0, replyClock = 0, mathRandom = 0\<rparr>
     FetchThrows rateLimitState ''finish'' \<noteq>
     Some \<lparr>intent = Submit, detectedFields = [], originalText = ''finish''\<rparr> \<and>
   pipeline True False \<lparr>apiKey = None, gateClock = 0, replyClock = 0, mathRandom = 0\<rparr>
     FetchThrows rateLimitState ''finish'' \<noteq>
     Some \<lparr>intent = Submit, detectedFields = [], originalText = ''finish''\<rparr>"
  by (simp add: finish_is_submit_word finish_ai_off finish_request_lost)

text \<open>
  Claim C2, amended.  For every utterance over the characters \<open>U+0000\<close> to \<open>U+00FF\<close>
  (all ASCII and Latin-1 text) that contains submit, send or done as a whole word
  (case-insensitive), in every combination of AI switch, delivery of the request, API
  key, rate limiting state and remote reply, the pipeline produces exactly one
  understanding, with intent submit and no detected fields.  For the five words submit,
  send, done, finish and complete the same holds of such an utterance when the AI switch
  is on and the request reaches the endpoint.  (Beyond that range the local check, which
  looks at the lower-cased text, can miss the word: in the Kelvin sign followed by
  \<open>send\<close> the word stands at a word boundary, but lower-casing makes it \<open>ksend\<close>.)
\<close>

theorem submit_word_understood:
  "(rx_test True (word_pattern local_submit_words) input \<longrightarrow>
      pipeline useAI delivered env reply s input =
        Some \<lparr>intent = Submit, detectedFields = [], originalText = input\<rparr>) \<and>
   (rx_test True submitPattern input \<longrightarrow>
      pipeline True True env reply s input =
        Some \<lparr>intent = Submit, detectedFields = [], originalText = input\<rparr>)"
  by (simp add: submitPattern_def rx_test_word_pattern pipeline_local_submit
      pipeline_server_submit)

lemma please_local: "rx_test True (word_pattern local_submit_words) ''  OK, please SUBMIT it ''"
  by code_simp

lemma please_server: "rx_test True submitPattern ''  OK, please SUBMIT it ''"
  by code_simp

theorem submit_word_understood_witness:
  "rx_test True (word_pattern local_submit_words) ''  OK, please SUBMIT it '' \<and>
   pipeline False False \<lparr>apiKey = Some ''k'', gateClock = 10, replyClock = 20, mathRandom = 0\<rparr>
     (HttpReply 429 NoCandidateText)
     \<lparr>lastRequestTime = 5, consecutiveErrors = 3, backoffMs = 30000, inCooldown = True\<rparr>
     ''  OK, please SUBMIT it '' =
     Some \<lparr>intent = Submit, detectedFields = [], originalText = ''  OK, please SUBMIT it ''\<rparr> \<and>
   rx_test True submitPattern ''  OK, please SUBMIT it '' \<and>
   pipeline True True \<lparr>apiKey = Some ''k'', gateClock = 10, replyClock = 20, mathRandom = 0\<rparr>
     (HttpReply 429 NoCandidateText)
     \<lparr>lastRequestTime = 5, consecutiveErrors = 3, backoffMs = 30000, inCooldown = True\<rparr>
     ''  OK, please SUBMIT it '' =
     Some \<lparr>intent = Submit, detectedFields = [], originalText = ''  OK, please SUBMIT it ''\<rparr>"
  using submit_word_understood [where input = "''  OK, please SUBMIT it ''" and useAI = False
      and delivered = False
      and env = "\<lparr>apiKey = Some ''k'', gateClock = 10, replyClock = 20, mathRandom = 0\<rparr>"
      and reply = "HttpReply 429 NoCandidateText"
      and s = "\<lparr>lastRequestTime = 5, consecutiveErrors = 3, backoffMs = 30000, inCooldown = True\<rparr>"]
    please_local please_server
  by simp

end
